theory Spec2Isabelle
  imports Main "HOL-Library.Word"
begin

unbundle bit_operations_syntax

section \<open>Values shared with the browser platform\<close>

text \<open>
  The client is TypeScript running in a browser. Its strings are sequences of UTF-16 code
  units, its byte buffers (\<open>Uint8Array\<close>) are sequences of octets, and the arrays it puts
  on the wire (\<open>number[]\<close>) hold JavaScript numbers, modelled as integers.
  \<open>Array.from(new Uint8Array(buf))\<close> reads each octet as a number (\<open>uint\<close>);
  \<open>new Uint8Array(numbers)\<close> stores each number modulo 256 (\<open>word_of_int\<close>).
\<close>

type_synonym byte = "8 word"
type_synonym bytes = "byte list"
type_synonym jsstring = "16 word list"

definition Array_from :: "bytes \<Rightarrow> int list" where
  "Array_from buf = map uint buf"

definition Uint8Array :: "int list \<Rightarrow> bytes" where
  "Uint8Array ns = map word_of_int ns"

text \<open>A string literal of the source, as code units.\<close>

definition js :: "string \<Rightarrow> jsstring" where
  "js s = map (\<lambda>c. of_nat (of_char c)) s"

subsection \<open>Randomness\<close>

text \<open>
  \<open>crypto.getRandomValues\<close> fills a buffer from the platform's generator. The generator
  is the stream of octets it is going to produce; drawing \<open>n\<close> octets returns them and
  leaves the rest of the stream.
\<close>

type_synonym rng = "nat \<Rightarrow> byte"

definition getRandomValues :: "nat \<Rightarrow> rng \<Rightarrow> bytes \<times> rng" where
  "getRandomValues n r = (map r [0..<n], \<lambda>i. r (i + n))"

subsection \<open>TextEncoder and TextDecoder\<close>

text \<open>
  \<open>new TextEncoder().encode(s)\<close> first converts \<open>s\<close> to a sequence of Unicode scalar
  values, every unpaired surrogate becoming U+FFFD, and then writes each scalar value in
  UTF-8. \<open>new TextDecoder().decode(b)\<close> runs the UTF-8 decoder in replacement mode
  (never failing), drops one leading U+FEFF because \<open>ignoreBOM\<close> is left at its default,
  and writes the code points as UTF-16. Shifts and masks are written with \<open>div\<close> and
  \<open>mod\<close>: \<open>x >> 6\<close> is \<open>x div 0x40\<close>, \<open>x & 0x3F\<close> is \<open>x mod 0x40\<close>, and
  \<open>(x << 6) | y\<close> with \<open>y < 0x40\<close> is \<open>x * 0x40 + y\<close>.
\<close>

fun to_scalar_values :: "nat list \<Rightarrow> nat list" where
  "to_scalar_values [] = []"
| "to_scalar_values (c # cs) =
    (if c < 0xD800 \<or> 0xDFFF < c then c # to_scalar_values cs
     else if 0xDC00 \<le> c then 0xFFFD # to_scalar_values cs
     else (case cs of
             [] \<Rightarrow> [0xFFFD]
           | d # ds \<Rightarrow>
               if 0xDC00 \<le> d \<and> d \<le> 0xDFFF
               then (0x10000 + 0x400 * (c mod 0x400) + d mod 0x400) # to_scalar_values ds
               else 0xFFFD # to_scalar_values cs))"

definition utf8_encode_cp :: "nat \<Rightarrow> nat list" where
  "utf8_encode_cp cp =
    (if cp \<le> 0x7F then [cp]
     else if cp \<le> 0x7FF then [cp div 0x40 + 0xC0, 0x80 + cp mod 0x40]
     else if cp \<le> 0xFFFF then
       [cp div 0x1000 + 0xE0, 0x80 + (cp div 0x40) mod 0x40, 0x80 + cp mod 0x40]
     else
       [cp div 0x40000 + 0xF0, 0x80 + (cp div 0x1000) mod 0x40,
        0x80 + (cp div 0x40) mod 0x40, 0x80 + cp mod 0x40])"

definition utf8_encode :: "nat list \<Rightarrow> nat list" where
  "utf8_encode cps = concat (map utf8_encode_cp cps)"

text \<open>
  The decoder keeps the code point under construction, the number of continuation bytes
  seen and needed, and the bounds allowed for the next byte. A byte outside the bounds
  ends the sequence with U+FFFD and is read again from the initial state.
\<close>

function utf8_decode :: "nat \<Rightarrow> nat \<Rightarrow> nat \<Rightarrow> nat \<Rightarrow> nat \<Rightarrow> nat list \<Rightarrow> nat list" where
  "utf8_decode cp seen needed lower upper [] = (if needed \<noteq> 0 then [0xFFFD] else [])"
| "utf8_decode cp seen needed lower upper (b # bs) =
    (if needed = 0 then
       (if b \<le> 0x7F then b # utf8_decode 0 0 0 0x80 0xBF bs
        else if 0xC2 \<le> b \<and> b \<le> 0xDF then utf8_decode (b mod 0x20) 0 1 0x80 0xBF bs
        else if 0xE0 \<le> b \<and> b \<le> 0xEF then
          utf8_decode (b mod 0x10) 0 2
            (if b = 0xE0 then 0xA0 else 0x80) (if b = 0xED then 0x9F else 0xBF) bs
        else if 0xF0 \<le> b \<and> b \<le> 0xF4 then
          utf8_decode (b mod 8) 0 3
            (if b = 0xF0 then 0x90 else 0x80) (if b = 0xF4 then 0x8F else 0xBF) bs
        else 0xFFFD # utf8_decode 0 0 0 0x80 0xBF bs)
     else if b < lower \<or> upper < b then 0xFFFD # utf8_decode 0 0 0 0x80 0xBF (b # bs)
     else if seen + 1 \<noteq> needed then
       utf8_decode (cp * 0x40 + b mod 0x40) (seen + 1) needed 0x80 0xBF bs
     else (cp * 0x40 + b mod 0x40) # utf8_decode 0 0 0 0x80 0xBF bs)"
  by pat_completeness auto
termination
  by (relation "measure (\<lambda>(cp, seen, needed, lower, upper, bs).
                  2 * length bs + (if needed = 0 then 0 else 1))") auto

definition strip_BOM :: "nat list \<Rightarrow> nat list" where
  "strip_BOM cps = (case cps of [] \<Rightarrow> [] | c # cs \<Rightarrow> if c = 0xFEFF then cs else c # cs)"

definition utf16_encode_cp :: "nat \<Rightarrow> nat list" where
  "utf16_encode_cp cp =
    (if cp < 0x10000 then [cp]
     else [0xD800 + (cp - 0x10000) div 0x400, 0xDC00 + (cp - 0x10000) mod 0x400])"

definition utf16_encode :: "nat list \<Rightarrow> nat list" where
  "utf16_encode cps = concat (map utf16_encode_cp cps)"

definition TextEncoder_encode :: "jsstring \<Rightarrow> bytes" where
  "TextEncoder_encode s = map of_nat (utf8_encode (to_scalar_values (map unat s)))"

definition TextDecoder_decode :: "bytes \<Rightarrow> jsstring" where
  "TextDecoder_decode b =
     map of_nat (utf16_encode (strip_BOM (utf8_decode 0 0 0 0x80 0xBF (map unat b))))"

text \<open>\<open>String.prototype.isWellFormed\<close>: no surrogate outside a lead-trail pair.\<close>

fun isWellFormed :: "nat list \<Rightarrow> bool" where
  "isWellFormed [] = True"
| "isWellFormed (c # cs) =
    (if c < 0xD800 \<or> 0xDFFF < c then isWellFormed cs
     else if 0xDC00 \<le> c then False
     else (case cs of
             [] \<Rightarrow> False
           | d # ds \<Rightarrow> 0xDC00 \<le> d \<and> d \<le> 0xDFFF \<and> isWellFormed ds))"


definition scalar :: "nat \<Rightarrow> bool" where
  "scalar cp \<longleftrightarrow> cp < 0xD800 \<or> (0xE000 \<le> cp \<and> cp < 0x110000)"

definition starts_with_BOM :: "jsstring \<Rightarrow> bool" where
  "starts_with_BOM s = (case s of [] \<Rightarrow> False | c # _ \<Rightarrow> c = 0xFEFF)"

subsection \<open>String helpers used by the client\<close>

text \<open>
  \<open>String.prototype.trim\<close> removes white space and line terminators from both ends;
  U+FEFF counts as white space.
\<close>

definition is_white_space :: "16 word \<Rightarrow> bool" where
  "is_white_space c \<longleftrightarrow>
     c \<in> {0x09, 0x0A, 0x0B, 0x0C, 0x0D, 0x20, 0xA0, 0x1680, 0x2028, 0x2029, 0x202F, 0x205F,
          0x3000, 0xFEFF} \<or> (0x2000 \<le> c \<and> c \<le> 0x200A)"

definition trim :: "jsstring \<Rightarrow> jsstring" where
  "trim s = rev (dropWhile is_white_space (rev (dropWhile is_white_space s)))"

text \<open>
  \<open>n.toString(16)\<close> for a non-negative integer, \<open>padStart\<close> with a one-character
  filler, \<open>substring\<close>, and \<open>toUpperCase\<close> on the Latin letters (the only letters a
  hexadecimal string holds).
\<close>

definition hex_digit :: "nat \<Rightarrow> 16 word" where
  "hex_digit d = (if d < 10 then 0x30 + of_nat d else 0x61 + of_nat (d - 10))"

function toString16 :: "nat \<Rightarrow> jsstring" where
  "toString16 n = (if n < 16 then [hex_digit n] else toString16 (n div 16) @ [hex_digit (n mod 16)])"
  by pat_completeness auto
termination
  by (relation "measure id") auto

definition padStart :: "nat \<Rightarrow> 16 word \<Rightarrow> jsstring \<Rightarrow> jsstring" where
  "padStart n filler s = replicate (n - length s) filler @ s"

definition substring :: "nat \<Rightarrow> nat \<Rightarrow> jsstring \<Rightarrow> jsstring" where
  "substring a b s = drop (min a b) (take (max a b) s)"

definition toUpperCase :: "jsstring \<Rightarrow> jsstring" where
  "toUpperCase s = map (\<lambda>c. if 0x61 \<le> c \<and> c \<le> 0x7A then c - 0x20 else c) s"

section \<open>The Web Cryptography interface\<close>

text \<open>
  The client calls \<open>crypto.subtle\<close>. A \<open>CryptoKey\<close> carries its algorithm, its type,
  whether it may be exported, its permitted usages and the key material. The primitives
  themselves (the X25519 function, AES-256-GCM sealing and opening with a 128-bit tag, and
  SHA-256) belong to the browser: they are parameters of the model, collected in a
  \<open>platform\<close>, and everything below is stated for an arbitrary platform. The checks that
  \<open>crypto.subtle\<close> performs around the primitives are written out, with the exception
  they raise.
\<close>

datatype key_alg = X25519 | AES_GCM
datatype key_kind = Public | Private | Secret
datatype key_usage = Encrypt | Decrypt | DeriveKey | DeriveBits
datatype dom_exception =
  InvalidAccessError | OperationError | DataError | SyntaxError | NotSupportedError

record CryptoKey =
  algorithm :: key_alg
  kind :: key_kind
  extractable :: bool
  usages :: "key_usage list"
  handle :: bytes

record platform =
  X25519_supported :: bool
  X25519_fn :: "bytes \<Rightarrow> bytes \<Rightarrow> bytes"
  AES_GCM_seal :: "bytes \<Rightarrow> bytes \<Rightarrow> bytes \<Rightarrow> bytes"
  AES_GCM_open :: "bytes \<Rightarrow> bytes \<Rightarrow> bytes \<Rightarrow> bytes option"
  SHA_256 :: "bytes \<Rightarrow> bytes"

text \<open>The base point of Curve25519 has u-coordinate 9, in 32 little-endian octets.\<close>

definition basepoint :: bytes where
  "basepoint = 9 # replicate 31 0"

text \<open>
  \<open>generateKey({name: 'X25519'}, extractable, usages)\<close>: 32 random octets are the private
  key, the public key is the X25519 function of them at the base point. The public key is
  always extractable and has no usages.
\<close>

definition subtle_generateKey ::
  "platform \<Rightarrow> bool \<Rightarrow> key_usage list \<Rightarrow> rng \<Rightarrow> (dom_exception + CryptoKey \<times> CryptoKey) \<times> rng" where
  "subtle_generateKey W ext us r =
    (if \<not> X25519_supported W then (Inl NotSupportedError, r)
     else if \<not> list_all (\<lambda>u. u = DeriveKey \<or> u = DeriveBits) us then (Inl SyntaxError, r)
     else if us = [] then (Inl SyntaxError, r)
     else
       (let (d, r') = getRandomValues 32 r in
        (Inr (\<lparr>algorithm = X25519, kind = Public, extractable = True, usages = [],
                handle = X25519_fn W d basepoint\<rparr>,
              \<lparr>algorithm = X25519, kind = Private, extractable = ext, usages = us,
                handle = d\<rparr>), r')))"

text \<open>\<open>exportKey('raw', key)\<close>: refused for a key that is not extractable, and for an
  X25519 key that is not public.\<close>

definition subtle_exportKey_raw :: "CryptoKey \<Rightarrow> dom_exception + bytes" where
  "subtle_exportKey_raw k =
    (if \<not> extractable k then Inl InvalidAccessError
     else if algorithm k = X25519 \<and> kind k \<noteq> Public then Inl InvalidAccessError
     else Inr (handle k))"

text \<open>\<open>importKey('raw', keyData, {name: 'X25519'}, extractable, usages)\<close>.\<close>

definition subtle_importKey_raw_X25519 ::
  "bytes \<Rightarrow> bool \<Rightarrow> key_usage list \<Rightarrow> dom_exception + CryptoKey" where
  "subtle_importKey_raw_X25519 keyData ext us =
    (if us \<noteq> [] then Inl SyntaxError
     else if length keyData \<noteq> 32 then Inl DataError
     else Inr \<lparr>algorithm = X25519, kind = Public, extractable = ext, usages = [],
               handle = keyData\<rparr>)"

text \<open>
  \<open>deriveKey({name: 'X25519', public}, baseKey, {name: 'AES-GCM', length}, extractable,
  usages)\<close> is \<open>deriveBits\<close> followed by a raw import of the bits as an AES-GCM key.
  \<open>deriveBits\<close> for X25519 runs the X25519 function, refuses an all-zero result, and
  returns the first \<open>length\<close> bits of the result. No other function is applied to the
  shared secret on the way.
\<close>

definition X25519_deriveBits ::
  "platform \<Rightarrow> CryptoKey \<Rightarrow> CryptoKey \<Rightarrow> nat \<Rightarrow> dom_exception + bytes" where
  "X25519_deriveBits W pub baseKey len =
    (if kind baseKey \<noteq> Private then Inl InvalidAccessError
     else if kind pub \<noteq> Public then Inl InvalidAccessError
     else if algorithm pub \<noteq> algorithm baseKey then Inl InvalidAccessError
     else
       (let secret = X25519_fn W (handle baseKey) (handle pub) in
        if list_all (\<lambda>b. b = 0) secret then Inl OperationError
        else if length secret * 8 < len then Inl OperationError
        else Inr (take (len div 8) secret)))"

definition AES_GCM_importKey_raw ::
  "bytes \<Rightarrow> bool \<Rightarrow> key_usage list \<Rightarrow> dom_exception + CryptoKey" where
  "AES_GCM_importKey_raw keyData ext us =
    (if \<not> list_all (\<lambda>u. u = Encrypt \<or> u = Decrypt) us then Inl SyntaxError
     else if length keyData * 8 \<notin> {128, 192, 256} then Inl DataError
     else if us = [] then Inl SyntaxError
     else Inr \<lparr>algorithm = AES_GCM, kind = Secret, extractable = ext, usages = us,
               handle = keyData\<rparr>)"

definition subtle_deriveKey ::
  "platform \<Rightarrow> CryptoKey \<Rightarrow> CryptoKey \<Rightarrow> nat \<Rightarrow> bool \<Rightarrow> key_usage list
     \<Rightarrow> dom_exception + CryptoKey" where
  "subtle_deriveKey W pub baseKey len ext us =
    (if algorithm baseKey \<noteq> X25519 then Inl InvalidAccessError
     else if DeriveKey \<notin> set (usages baseKey) then Inl InvalidAccessError
     else (case X25519_deriveBits W pub baseKey len of
             Inl e \<Rightarrow> Inl e
           | Inr secret \<Rightarrow> AES_GCM_importKey_raw secret ext us))"

text \<open>
  \<open>encrypt\<close> and \<open>decrypt\<close> with \<open>{name: 'AES-GCM', iv, tagLength: 128}\<close>. The
  ciphertext carries the 16-octet tag at its end. The limit on the plaintext size
  (\<open>2^39 - 256\<close> octets) exceeds the length of any string and is left out.
\<close>

definition subtle_encrypt ::
  "platform \<Rightarrow> bytes \<Rightarrow> CryptoKey \<Rightarrow> bytes \<Rightarrow> dom_exception + bytes" where
  "subtle_encrypt W nonce k plaintext =
    (if algorithm k \<noteq> AES_GCM then Inl InvalidAccessError
     else if Encrypt \<notin> set (usages k) then Inl InvalidAccessError
     else Inr (AES_GCM_seal W (handle k) nonce plaintext))"

definition subtle_decrypt ::
  "platform \<Rightarrow> bytes \<Rightarrow> CryptoKey \<Rightarrow> bytes \<Rightarrow> dom_exception + bytes" where
  "subtle_decrypt W nonce k sealed =
    (if algorithm k \<noteq> AES_GCM then Inl InvalidAccessError
     else if Decrypt \<notin> set (usages k) then Inl InvalidAccessError
     else if length sealed < 16 then Inl OperationError
     else (case AES_GCM_open W (handle k) nonce sealed of
             None \<Rightarrow> Inl OperationError
           | Some plaintext \<Rightarrow> Inr plaintext))"

subsection \<open>What is assumed of the primitives\<close>

text \<open>
  Opening what was sealed under the same 256-bit key and 96-bit nonce returns the
  plaintext, and the sealed text is the plaintext's length plus the tag; the X25519
  function is a Diffie-Hellman function over the base point; SHA-256 returns 32 octets.
\<close>

definition aead_correct :: "platform \<Rightarrow> bool" where
  "aead_correct W \<longleftrightarrow>
     (\<forall>k n p. length k = 32 \<and> length n = 12 \<longrightarrow>
        AES_GCM_open W k n (AES_GCM_seal W k n p) = Some p \<and>
        length (AES_GCM_seal W k n p) = length p + 16)"

definition dh_commutes :: "platform \<Rightarrow> bool" where
  "dh_commutes W \<longleftrightarrow>
     (\<forall>a b. length a = 32 \<and> length b = 32 \<longrightarrow>
        X25519_fn W a (X25519_fn W b basepoint) = X25519_fn W b (X25519_fn W a basepoint))"

definition digest_length :: "platform \<Rightarrow> bool" where
  "digest_length W \<longleftrightarrow> (\<forall>d. length (SHA_256 W d) = 32)"

section \<open>The encryption module (\<open>lib/crypto.ts\<close>)\<close>

record KeyPair =
  publicKey :: CryptoKey
  privateKey :: CryptoKey

record EncryptedMessage =
  ciphertext :: "int list"
  iv :: "int list"

record SerializablePublicKey =
  key :: "int list"

text \<open>Each function catches what the platform raises and throws its own error.\<close>

datatype error =
  CannotGenerateKeyPair | CannotExportPublicKey | CannotImportPublicKey
  | CannotDeriveSharedKey | CannotEncryptMessage | CannotDecryptMessage

definition generateKeyPair :: "platform \<Rightarrow> rng \<Rightarrow> (error + KeyPair) \<times> rng" where
  "generateKeyPair W r =
    (case subtle_generateKey W True [DeriveKey, DeriveBits] r of
       (Inl e, r') \<Rightarrow> (Inl CannotGenerateKeyPair, r')
     | (Inr (pub, priv), r') \<Rightarrow> (Inr \<lparr>publicKey = pub, privateKey = priv\<rparr>, r'))"

definition exportPublicKey :: "CryptoKey \<Rightarrow> error + SerializablePublicKey" where
  "exportPublicKey pub =
    (case subtle_exportKey_raw pub of
       Inl e \<Rightarrow> Inl CannotExportPublicKey
     | Inr exported \<Rightarrow> Inr \<lparr>key = Array_from exported\<rparr>)"

definition importPublicKey :: "SerializablePublicKey \<Rightarrow> error + CryptoKey" where
  "importPublicKey serializedKey =
    (let keyBuffer = Uint8Array (key serializedKey) in
     case subtle_importKey_raw_X25519 keyBuffer False [] of
       Inl e \<Rightarrow> Inl CannotImportPublicKey
     | Inr k \<Rightarrow> Inr k)"

definition deriveSharedKey :: "platform \<Rightarrow> CryptoKey \<Rightarrow> CryptoKey \<Rightarrow> error + CryptoKey" where
  "deriveSharedKey W myPrivateKey theirPublicKey =
    (case subtle_deriveKey W theirPublicKey myPrivateKey 256 False [Encrypt, Decrypt] of
       Inl e \<Rightarrow> Inl CannotDeriveSharedKey
     | Inr sharedKey \<Rightarrow> Inr sharedKey)"

text \<open>
  \<open>encryptMessage(message, key)\<close> draws its twelve nonce octets from the generator
  itself; besides the platform, the generator is the only thing the model adds to the two
  arguments of the source.
\<close>

definition encryptMessage ::
  "platform \<Rightarrow> jsstring \<Rightarrow> CryptoKey \<Rightarrow> rng \<Rightarrow> (error + EncryptedMessage) \<times> rng" where
  "encryptMessage W message k r =
    (let (nonce, r') = getRandomValues 12 r;
         messageBytes = TextEncoder_encode message
     in case subtle_encrypt W nonce k messageBytes of
          Inl e \<Rightarrow> (Inl CannotEncryptMessage, r')
        | Inr sealed \<Rightarrow> (Inr \<lparr>ciphertext = Array_from sealed, iv = Array_from nonce\<rparr>, r'))"

definition decryptMessage :: "platform \<Rightarrow> EncryptedMessage \<Rightarrow> CryptoKey \<Rightarrow> error + jsstring" where
  "decryptMessage W encryptedMessage k =
    (let sealed = Uint8Array (ciphertext encryptedMessage);
         nonce = Uint8Array (iv encryptedMessage)
     in case subtle_decrypt W nonce k sealed of
          Inl e \<Rightarrow> Inl CannotDecryptMessage
        | Inr decryptedBytes \<Rightarrow> Inr (TextDecoder_decode decryptedBytes))"

text \<open>A failure inside \<open>getPublicKeyFingerprint\<close> is caught and the empty string returned.\<close>

definition getPublicKeyFingerprint :: "platform \<Rightarrow> CryptoKey \<Rightarrow> jsstring" where
  "getPublicKeyFingerprint W pub =
    (case subtle_exportKey_raw pub of
       Inl e \<Rightarrow> []
     | Inr exported \<Rightarrow>
         (let hashBuffer = SHA_256 W exported;
              hashArray = Array_from hashBuffer;
              hashHex = concat (map (\<lambda>b. padStart 2 0x30 (toString16 (nat b))) hashArray)
          in toUpperCase (substring 0 16 hashHex)))"

text \<open>
  The fingerprint in the words of the specification: the first eight octets of the
  SHA-256 hash of the raw encoding, each written as two upper-case hexadecimal digits.
\<close>

definition HEX_digit :: "nat \<Rightarrow> 16 word" where
  "HEX_digit d = (if d < 10 then 0x30 + of_nat d else 0x41 + of_nat (d - 10))"

definition fingerprint_spec :: "platform \<Rightarrow> bytes \<Rightarrow> jsstring" where
  "fingerprint_spec W raw =
     concat (map (\<lambda>b. [HEX_digit (unat b div 16), HEX_digit (unat b mod 16)])
                 (take 8 (SHA_256 W raw)))"


section \<open>The chat room (\<open>app/room/[id]/page.tsx\<close>)\<close>

subsection \<open>Messages, broadcasts and the component's state\<close>

record Message =
  m_id :: jsstring
  m_senderId :: jsstring
  m_senderNickname :: jsstring
  m_content :: jsstring
  m_timestamp :: int
  m_isOwn :: bool

record PublicKeyBroadcast =
  pk_userId :: jsstring
  pk_nickname :: jsstring
  pk_publicKey :: SerializablePublicKey
  pk_timestamp :: int

record Envelope =
  recipientId :: jsstring
  encrypted :: EncryptedMessage

text \<open>
  The payload of a \<open>message\<close> broadcast is untyped in the source. It is read through
  \<open>encryptedMessages\<close> (one envelope per recipient) and, when that field is absent,
  through the older single field \<open>encrypted\<close>. An absent field is \<open>None\<close>; an empty
  array is present.
\<close>

record MessagePayload =
  p_messageId :: jsstring
  p_senderId :: jsstring
  p_senderNickname :: jsstring
  p_encryptedMessages :: "Envelope list option"
  p_encrypted :: "EncryptedMessage option"
  p_timestamp :: int

datatype broadcast = PublicKeyEvent PublicKeyBroadcast | MessageEvent MessagePayload

datatype ui_error = NoError | NicknameMissing | NicknameTooLong | JoinFailed | SendFailed

text \<open>
  The state of the component: its \<open>useState\<close> values and \<open>useRef\<close> cells.
  \<open>sharedKeysRef\<close> is a JavaScript \<open>Map\<close>, kept as its entries in insertion order.
  \<open>channelRef\<close> says whether \<open>channelRef.current\<close> holds a channel, and \<open>sent\<close>
  lists what the component has handed to \<open>channel.send\<close>, oldest first.
\<close>

record ChatRoom =
  userId :: jsstring
  nickname :: jsstring
  nicknameRef :: jsstring
  hasJoined :: bool
  errorMsg :: ui_error
  keyPairRef :: "KeyPair option"
  sharedKeysRef :: "(jsstring \<times> CryptoKey) list"
  sharedKeysVersion :: nat
  messages :: "Message list"
  messageInput :: jsstring
  isSending :: bool
  channelRef :: bool
  sent :: "broadcast list"

definition Map_get :: "('k \<times> 'v) list \<Rightarrow> 'k \<Rightarrow> 'v option" where
  "Map_get m k = map_of m k"

fun Map_set :: "('k \<times> 'v) list \<Rightarrow> 'k \<Rightarrow> 'v \<Rightarrow> ('k \<times> 'v) list" where
  "Map_set [] k v = [(k, v)]"
| "Map_set ((k', v') # m) k v = (if k' = k then (k, v) # m else (k', v') # Map_set m k v)"

text \<open>What a handler reports on the console when it returns.\<close>

datatype key_outcome =
  OwnKeyIgnored | KeyExchangeFailed error | KeyPairMissing | ChannelEstablished bool

datatype message_outcome =
  OwnMessageSkipped | NoCiphertextForMe | NoKeyForSender | DecryptionFailed error
  | Delivered | DeliveredLegacy | NothingToRead

subsection \<open>Joining\<close>

text \<open>
  \<open>handleJoinRoom\<close> checks the nickname, generates the key pair, exports the public key,
  opens the channel and, once subscribed, broadcasts the public key. The exported key is
  a local constant of the call, captured by the handlers it registers: it is returned here
  next to the state, and the handlers below take it as \<open>myPublicKey\<close>. \<open>now\<close> is the
  value of \<open>Date.now()\<close>.
\<close>

definition handleJoinRoom ::
  "platform \<Rightarrow> int \<Rightarrow> rng \<Rightarrow> ChatRoom \<Rightarrow> (SerializablePublicKey option \<times> ChatRoom) \<times> rng" where
  "handleJoinRoom W now r st =
    (if trim (nickname st) = [] then ((None, st\<lparr>errorMsg := NicknameMissing\<rparr>), r)
     else if 20 < length (trim (nickname st)) then ((None, st\<lparr>errorMsg := NicknameTooLong\<rparr>), r)
     else
       (let st1 = st\<lparr>nicknameRef := trim (nickname st)\<rparr> in
        case generateKeyPair W r of
          (Inl e, r') \<Rightarrow> ((None, st1\<lparr>errorMsg := JoinFailed\<rparr>), r')
        | (Inr keys, r') \<Rightarrow>
            (let st2 = st1\<lparr>keyPairRef := Some keys\<rparr> in
             case exportPublicKey (publicKey keys) of
               Inl e \<Rightarrow> ((None, st2\<lparr>errorMsg := JoinFailed\<rparr>), r')
             | Inr myPublicKey \<Rightarrow>
                 ((Some myPublicKey,
                   st2\<lparr>sent := sent st2 @
                          [PublicKeyEvent \<lparr>pk_userId = userId st2, pk_nickname = nicknameRef st2,
                             pk_publicKey = myPublicKey, pk_timestamp = now\<rparr>],
                        hasJoined := True, channelRef := True\<rparr>), r'))))"

subsection \<open>Receiving a public key\<close>

definition onPublicKey ::
  "platform \<Rightarrow> SerializablePublicKey \<Rightarrow> int \<Rightarrow> ChatRoom \<Rightarrow> PublicKeyBroadcast
     \<Rightarrow> ChatRoom \<times> key_outcome" where
  "onPublicKey W myPublicKey now st payload =
    (if pk_userId payload = userId st then (st, OwnKeyIgnored)
     else
       (let existingKey = Map_get (sharedKeysRef st) (pk_userId payload) in
        case importPublicKey (pk_publicKey payload) of
          Inl e \<Rightarrow> (st, KeyExchangeFailed e)
        | Inr theirPublicKey \<Rightarrow>
            (case keyPairRef st of
               None \<Rightarrow> (st, KeyPairMissing)
             | Some keys \<Rightarrow>
                 (case deriveSharedKey W (privateKey keys) theirPublicKey of
                    Inl e \<Rightarrow> (st, KeyExchangeFailed e)
                  | Inr sharedKey \<Rightarrow>
                      (let st1 = st\<lparr>sharedKeysRef :=
                                       Map_set (sharedKeysRef st) (pk_userId payload) sharedKey,
                                     sharedKeysVersion := sharedKeysVersion st + 1\<rparr>
                       in if existingKey = None
                          then (st1\<lparr>sent := sent st1 @
                                   [PublicKeyEvent \<lparr>pk_userId = userId st1,
                                      pk_nickname = nicknameRef st1,
                                      pk_publicKey = myPublicKey, pk_timestamp = now\<rparr>]\<rparr>,
                                ChannelEstablished True)
                          else (st1, ChannelEstablished False))))))"

subsection \<open>Receiving a message\<close>

definition onMessage :: "platform \<Rightarrow> ChatRoom \<Rightarrow> MessagePayload \<Rightarrow> ChatRoom \<times> message_outcome" where
  "onMessage W st payload =
    (if p_senderId payload = userId st then (st, OwnMessageSkipped)
     else
       (case p_encryptedMessages payload of
          Some encryptedMessages \<Rightarrow>
            (case find (\<lambda>msg. recipientId msg = userId st) encryptedMessages of
               None \<Rightarrow> (st, NoCiphertextForMe)
             | Some myEncryptedMessage \<Rightarrow>
                 (case Map_get (sharedKeysRef st) (p_senderId payload) of
                    None \<Rightarrow> (st, NoKeyForSender)
                  | Some sharedKey \<Rightarrow>
                      (case decryptMessage W (encrypted myEncryptedMessage) sharedKey of
                         Inl e \<Rightarrow> (st, DecryptionFailed e)
                       | Inr decryptedContent \<Rightarrow>
                           (st\<lparr>messages := messages st @
                                 [\<lparr>m_id = p_messageId payload, m_senderId = p_senderId payload,
                                    m_senderNickname = p_senderNickname payload,
                                    m_content = decryptedContent,
                                    m_timestamp = p_timestamp payload, m_isOwn = False\<rparr>]\<rparr>,
                            Delivered))))
        | None \<Rightarrow>
            (case p_encrypted payload of
               None \<Rightarrow> (st, NothingToRead)
             | Some legacy \<Rightarrow>
                 (case Map_get (sharedKeysRef st) (p_senderId payload) of
                    None \<Rightarrow> (st, NoKeyForSender)
                  | Some sharedKey \<Rightarrow>
                      (case decryptMessage W legacy sharedKey of
                         Inl e \<Rightarrow> (st, DecryptionFailed e)
                       | Inr decryptedContent \<Rightarrow>
                           (st\<lparr>messages := messages st @
                                 [\<lparr>m_id = p_messageId payload, m_senderId = p_senderId payload,
                                    m_senderNickname = p_senderNickname payload,
                                    m_content = decryptedContent,
                                    m_timestamp = p_timestamp payload, m_isOwn = False\<rparr>]\<rparr>,
                            DeliveredLegacy))))))"

subsection \<open>Sending a message\<close>

text \<open>The loop over the recipients: one call of \<open>encryptMessage\<close> per entry, in order.\<close>

fun encryptForAll ::
  "platform \<Rightarrow> jsstring \<Rightarrow> (jsstring \<times> CryptoKey) list \<Rightarrow> Envelope list \<Rightarrow> rng
     \<Rightarrow> (error + Envelope list) \<times> rng" where
  "encryptForAll W messageContent [] encryptedMessages r = (Inr encryptedMessages, r)"
| "encryptForAll W messageContent ((rid, sharedKey) # recipientKeys) encryptedMessages r =
    (case encryptMessage W messageContent sharedKey r of
       (Inl e, r') \<Rightarrow> (Inl e, r')
     | (Inr enc, r') \<Rightarrow>
         encryptForAll W messageContent recipientKeys
           (encryptedMessages @ [\<lparr>recipientId = rid, encrypted = enc\<rparr>]) r')"

text \<open>\<open>messageId\<close> is the value of \<open>crypto.randomUUID()\<close>, \<open>now\<close> that of \<open>Date.now()\<close>.\<close>

definition handleSendMessage ::
  "platform \<Rightarrow> jsstring \<Rightarrow> int \<Rightarrow> rng \<Rightarrow> ChatRoom \<Rightarrow> ChatRoom \<times> rng" where
  "handleSendMessage W messageId now r st =
    (if trim (messageInput st) = [] \<or> \<not> channelRef st \<or> isSending st then (st, r)
     else
       (let messageContent = trim (messageInput st);
            st1 = st\<lparr>isSending := True, messageInput := []\<rparr>;
            recipientKeys = sharedKeysRef st1;
            ownMessage = \<lparr>m_id = messageId, m_senderId = userId st1,
                           m_senderNickname = nicknameRef st1, m_content = messageContent,
                           m_timestamp = now, m_isOwn = True\<rparr>;
            st2 = st1\<lparr>messages := messages st1 @ [ownMessage]\<rparr>
        in if length recipientKeys = 0 then (st2\<lparr>isSending := False\<rparr>, r)
           else
             (case encryptForAll W messageContent recipientKeys [] r of
                (Inl e, r') \<Rightarrow> (st2\<lparr>errorMsg := SendFailed, isSending := False\<rparr>, r')
              | (Inr encryptedMessages, r') \<Rightarrow>
                  (st2\<lparr>sent := sent st2 @
                         [MessageEvent \<lparr>p_messageId = messageId, p_senderId = userId st2,
                            p_senderNickname = nicknameRef st2,
                            p_encryptedMessages = Some encryptedMessages,
                            p_encrypted = None, p_timestamp = now\<rparr>],
                       isSending := False\<rparr>, r'))))"

subsection \<open>Invariants of the key table\<close>

definition table_inv :: "ChatRoom \<Rightarrow> bool" where
  "table_inv st \<longleftrightarrow>
     distinct (map fst (sharedKeysRef st)) \<and> userId st \<notin> set (map fst (sharedKeysRef st))"

definition usable_key :: "CryptoKey \<Rightarrow> bool" where
  "usable_key k \<longleftrightarrow>
     algorithm k = AES_GCM \<and> usages k = [Encrypt, Decrypt] \<and> length (handle k) = 32"

definition keys_usable :: "ChatRoom \<Rightarrow> bool" where
  "keys_usable st \<longleftrightarrow> list_all (\<lambda>e. usable_key (snd e)) (sharedKeysRef st)"


section \<open>A small platform for running the model\<close>

text \<open>
  The theorems below hold for every platform that meets the assumptions on the
  primitives. To run the model on concrete inputs, and to show that the assumptions can
  be met, here is a platform small enough to evaluate by hand. It has the algebra asked
  of the primitives and none of their security: the key agreement is an exclusive or with
  the private key, the cipher an exclusive or with one octet derived from key and nonce,
  followed by a 16-octet checksum, and the hash a sum of the octets.
\<close>

definition test_X25519 :: "bytes \<Rightarrow> bytes \<Rightarrow> bytes" where
  "test_X25519 k u = map2 (\<lambda>a b. a XOR b) k u"

definition test_mask :: "bytes \<Rightarrow> bytes \<Rightarrow> byte" where
  "test_mask k n = foldr (\<lambda>a b. a XOR b) (k @ n) 0"

definition test_tag :: "bytes \<Rightarrow> bytes \<Rightarrow> bytes \<Rightarrow> bytes" where
  "test_tag k n c = replicate 16 (foldr (\<lambda>a b. a + b) c (test_mask k n))"

definition test_seal :: "bytes \<Rightarrow> bytes \<Rightarrow> bytes \<Rightarrow> bytes" where
  "test_seal k n p = (let c = map (\<lambda>b. b XOR test_mask k n) p in c @ test_tag k n c)"

definition test_open :: "bytes \<Rightarrow> bytes \<Rightarrow> bytes \<Rightarrow> bytes option" where
  "test_open k n x =
    (let c = take (length x - 16) x; t = drop (length x - 16) x
     in if 16 \<le> length x \<and> t = test_tag k n c
        then Some (map (\<lambda>b. b XOR test_mask k n) c) else None)"

definition test_SHA_256 :: "bytes \<Rightarrow> bytes" where
  "test_SHA_256 d = map (\<lambda>i. foldr (\<lambda>a b. a + b) d (of_nat (7 * i))) [0..<32]"

definition test_platform :: platform where
  "test_platform =
     \<lparr>X25519_supported = True, X25519_fn = test_X25519, AES_GCM_seal = test_seal,
      AES_GCM_open = test_open, SHA_256 = test_SHA_256\<rparr>"

text \<open>Two participants, their generators, and the keys the platform gives them.\<close>

definition alice_rng :: rng where
  "alice_rng i = of_nat (3 * i + 1)"

definition bob_rng :: rng where
  "bob_rng i = of_nat (5 * i + 2)"

definition alice_keys :: KeyPair where
  "alice_keys =
     \<lparr>publicKey = \<lparr>algorithm = X25519, kind = Public, extractable = True, usages = [],
                    handle = test_X25519 (map alice_rng [0..<32]) basepoint\<rparr>,
      privateKey = \<lparr>algorithm = X25519, kind = Private, extractable = True,
                     usages = [DeriveKey, DeriveBits], handle = map alice_rng [0..<32]\<rparr>\<rparr>"

definition bob_keys :: KeyPair where
  "bob_keys =
     \<lparr>publicKey = \<lparr>algorithm = X25519, kind = Public, extractable = True, usages = [],
                    handle = test_X25519 (map bob_rng [0..<32]) basepoint\<rparr>,
      privateKey = \<lparr>algorithm = X25519, kind = Private, extractable = True,
                     usages = [DeriveKey, DeriveBits], handle = map bob_rng [0..<32]\<rparr>\<rparr>"

definition alice_bob_key :: CryptoKey where
  "alice_bob_key =
     \<lparr>algorithm = AES_GCM, kind = Secret, extractable = False, usages = [Encrypt, Decrypt],
      handle = test_X25519 (map alice_rng [0..<32]) (test_X25519 (map bob_rng [0..<32]) basepoint)\<rparr>"

text \<open>
  Alice's room before she joins, after she has joined (her announcement sent at time
  1000), and after she has processed Bob's announcement (her reply sent at time 2000).
\<close>

definition alice_public :: SerializablePublicKey where
  "alice_public = \<lparr>key = Array_from (handle (publicKey alice_keys))\<rparr>"

definition alice_announcement :: "int \<Rightarrow> PublicKeyBroadcast" where
  "alice_announcement t =
     \<lparr>pk_userId = js ''alice'', pk_nickname = js ''Alice'', pk_publicKey = alice_public,
      pk_timestamp = t\<rparr>"

definition bob_announcement :: PublicKeyBroadcast where
  "bob_announcement =
     \<lparr>pk_userId = js ''bob'', pk_nickname = js ''Bob'',
      pk_publicKey = \<lparr>key = Array_from (handle (publicKey bob_keys))\<rparr>, pk_timestamp = 2000\<rparr>"

definition alice_room :: ChatRoom where
  "alice_room =
     \<lparr>userId = js ''alice'', nickname = js ''Alice'', nicknameRef = [], hasJoined = False,
      errorMsg = NoError, keyPairRef = None, sharedKeysRef = [], sharedKeysVersion = 0,
      messages = [], messageInput = [], isSending = False, channelRef = False, sent = []\<rparr>"

definition alice_joined :: ChatRoom where
  "alice_joined =
     alice_room\<lparr>nicknameRef := js ''Alice'', keyPairRef := Some alice_keys, hasJoined := True,
       channelRef := True, sent := [PublicKeyEvent (alice_announcement 1000)]\<rparr>"

definition alice_with_bob :: ChatRoom where
  "alice_with_bob =
     alice_joined\<lparr>sharedKeysRef := [(js ''bob'', alice_bob_key)], sharedKeysVersion := 1,
       sent := [PublicKeyEvent (alice_announcement 1000),
                PublicKeyEvent (alice_announcement 2000)]\<rparr>"

text \<open>Message payloads: from a given sender, with envelopes or with the older field.\<close>

definition message_from ::
  "jsstring \<Rightarrow> Envelope list option \<Rightarrow> EncryptedMessage option \<Rightarrow> MessagePayload" where
  "message_from sender envelopes legacy =
     \<lparr>p_messageId = js ''m1'', p_senderId = sender, p_senderNickname = sender,
      p_encryptedMessages = envelopes, p_encrypted = legacy, p_timestamp = 2500\<rparr>"

definition unreadable :: EncryptedMessage where
  "unreadable = \<lparr>ciphertext = [], iv = []\<rparr>"

definition hi_sealed :: EncryptedMessage where
  "hi_sealed =
     \<lparr>ciphertext = Array_from (test_seal (handle alice_bob_key) (map bob_rng [0..<12])
                                 (TextEncoder_encode (js ''hi''))),
      iv = Array_from (map bob_rng [0..<12])\<rparr>"

section \<open>Encoding a string and decoding it again\<close>

text \<open>
  A well-formed string that does not begin with U+FEFF survives
  \<open>TextEncoder.encode\<close> followed by \<open>TextDecoder.decode\<close>. The proof goes through the
  scalar values: UTF-8 decoding inverts UTF-8 encoding on scalar values, and a
  well-formed string is the UTF-16 form of its scalar values.
\<close>

lemma mod_shift: "(x::nat) < m \<Longrightarrow> (x + k * m) mod m = x"
  by simp

lemma base64_digits:
  fixes cp :: nat
  defines "c0 \<equiv> cp mod 0x40" and "c1 \<equiv> (cp div 0x40) mod 0x40"
    and "c2 \<equiv> (cp div 0x1000) mod 0x40" and "c3 \<equiv> cp div 0x40000"
  shows "cp = c0 + 0x40 * c1 + 0x1000 * c2 + 0x40000 * c3"
    and "cp div 0x40 = c1 + 0x40 * c2 + 0x1000 * c3"
    and "cp div 0x1000 = c2 + 0x40 * c3"
    and "c0 < 0x40" and "c1 < 0x40" and "c2 < 0x40"
proof -
  have d1: "cp div 0x1000 = cp div 0x40 div 0x40"
    using div_mult2_eq [of cp "0x40" "0x40"] by simp
  have d2: "cp div 0x40000 = cp div 0x1000 div 0x40"
    using div_mult2_eq [of cp "0x1000" "0x40"] by simp
  have e0: "cp = c0 + 0x40 * (cp div 0x40)"
    unfolding c0_def by simp
  have e1: "cp div 0x40 = c1 + 0x40 * (cp div 0x1000)"
    unfolding c1_def d1 by simp
  have e2: "cp div 0x1000 = c2 + 0x40 * c3"
    unfolding c2_def c3_def d2 by simp
  show "cp div 0x1000 = c2 + 0x40 * c3" by (rule e2)
  show "cp div 0x40 = c1 + 0x40 * c2 + 0x1000 * c3" using e1 e2 by linarith
  then show "cp = c0 + 0x40 * c1 + 0x1000 * c2 + 0x40000 * c3" using e0 by linarith
  show "c0 < 0x40" "c1 < 0x40" "c2 < 0x40" by (simp_all add: c0_def c1_def c2_def)
qed

lemma cont_byte: "c < 0x40 \<Longrightarrow> (0x80 + c) mod 0x40 = (c::nat)"
  using mod_shift [of c "0x40" 2] by (simp add: add.commute)

lemma dec_lead2: "0xC2 \<le> b \<Longrightarrow> b \<le> 0xDF \<Longrightarrow>
  utf8_decode 0 0 0 0x80 0xBF (b # bs) = utf8_decode (b mod 0x20) 0 1 0x80 0xBF bs"
  by simp

lemma dec_lead3: "0xE0 \<le> b \<Longrightarrow> b \<le> 0xEF \<Longrightarrow>
  utf8_decode 0 0 0 0x80 0xBF (b # bs) =
  utf8_decode (b mod 0x10) 0 2 (if b = 0xE0 then 0xA0 else 0x80) (if b = 0xED then 0x9F else 0xBF) bs"
  by simp

lemma dec_lead4: "0xF0 \<le> b \<Longrightarrow> b \<le> 0xF4 \<Longrightarrow>
  utf8_decode 0 0 0 0x80 0xBF (b # bs) =
  utf8_decode (b mod 8) 0 3 (if b = 0xF0 then 0x90 else 0x80) (if b = 0xF4 then 0x8F else 0xBF) bs"
  by simp

lemma dec_cont: "needed \<noteq> 0 \<Longrightarrow> lower \<le> b \<Longrightarrow> b \<le> upper \<Longrightarrow> seen + 1 \<noteq> needed \<Longrightarrow>
  utf8_decode cp seen needed lower upper (b # bs) =
  utf8_decode (cp * 0x40 + b mod 0x40) (seen + 1) needed 0x80 0xBF bs"
  by simp

lemma dec_last: "needed \<noteq> 0 \<Longrightarrow> lower \<le> b \<Longrightarrow> b \<le> upper \<Longrightarrow> seen + 1 = needed \<Longrightarrow>
  utf8_decode cp seen needed lower upper (b # bs) =
  (cp * 0x40 + b mod 0x40) # utf8_decode 0 0 0 0x80 0xBF bs"
  by simp

declare utf8_decode.simps [simp del]

lemma utf8_two:
  assumes "0x7F < cp" "cp \<le> 0x7FF"
  shows "utf8_decode 0 0 0 0x80 0xBF (utf8_encode_cp cp @ bs) = cp # utf8_decode 0 0 0 0x80 0xBF bs"
proof -
  define c0 where "c0 = cp mod 0x40"
  define c1 where "c1 = cp div 0x40"
  have c0: "c0 < 0x40" by (simp add: c0_def)
  have cp: "cp = c1 * 0x40 + c0" by (simp add: c0_def c1_def)
  have c1: "2 \<le> c1" "c1 < 0x20" using assms cp c0 by linarith+
  have e: "utf8_encode_cp cp @ bs = (c1 + 0xC0) # (0x80 + c0) # bs"
    using assms by (simp add: utf8_encode_cp_def c0_def c1_def)
  have v1: "(c1 + 0xC0) mod 0x20 = c1"
    using mod_shift [of c1 "0x20" 6] c1 by simp
  have "utf8_decode 0 0 0 0x80 0xBF ((c1 + 0xC0) # (0x80 + c0) # bs)
      = utf8_decode c1 0 1 0x80 0xBF ((0x80 + c0) # bs)"
    using c1 by (simp add: dec_lead2 v1)
  also have "\<dots> = (c1 * 0x40 + (0x80 + c0) mod 0x40) # utf8_decode 0 0 0 0x80 0xBF bs"
    using c0 by (intro dec_last) simp_all
  finally show ?thesis by (simp only: e cont_byte [OF c0] cp [symmetric])
qed

lemma utf8_three:
  assumes "0x7FF < cp" "cp \<le> 0xFFFF" "scalar cp"
  shows "utf8_decode 0 0 0 0x80 0xBF (utf8_encode_cp cp @ bs) = cp # utf8_decode 0 0 0 0x80 0xBF bs"
proof -
  define c0 where "c0 = cp mod 0x40"
  define c1 where "c1 = (cp div 0x40) mod 0x40"
  define c2 where "c2 = cp div 0x1000"
  note d = base64_digits [of cp, folded c0_def c1_def]
  have c0: "c0 < 0x40" and c1: "c1 < 0x40" by (simp_all add: c0_def c1_def)
  have q: "cp div 0x40 = c1 + 0x40 * c2" 
    using div_mult2_eq [of cp "0x40" "0x40"] by (simp add: c1_def c2_def)
  have "cp = 0x40 * (cp div 0x40) + c0" by (simp add: c0_def)
  then have "cp = 0x40 * (c1 + 0x40 * c2) + c0" by (simp only: q)
  then have lin: "cp = c0 + 0x40 * c1 + 0x1000 * c2" by simp
  then have cp: "cp = (c2 * 0x40 + c1) * 0x40 + c0" by (simp add: algebra_simps)
  have c2: "c2 < 0x10" using assms(2) lin by linarith
  have lo: "c2 = 0 \<Longrightarrow> 0x20 \<le> c1" using assms(1) lin c0 by linarith
  have hi: "c2 = 0xD \<Longrightarrow> c1 < 0x20" using assms(3) lin c0 c1 unfolding scalar_def by linarith
  have e: "utf8_encode_cp cp @ bs = (c2 + 0xE0) # (0x80 + c1) # (0x80 + c0) # bs"
    using assms by (simp add: utf8_encode_cp_def c0_def c1_def c2_def)
  have v1: "(c2 + 0xE0) mod 0x10 = c2"
    using mod_shift [of c2 "0x10" 14] c2 by simp
  have "utf8_decode 0 0 0 0x80 0xBF ((c2 + 0xE0) # (0x80 + c1) # (0x80 + c0) # bs)
      = utf8_decode c2 0 2 (if c2 = 0 then 0xA0 else 0x80) (if c2 = 0xD then 0x9F else 0xBF)
          ((0x80 + c1) # (0x80 + c0) # bs)"
    using c2 by (simp add: dec_lead3 v1)
  also have "\<dots> = utf8_decode (c2 * 0x40 + (0x80 + c1) mod 0x40) 1 2 0x80 0xBF ((0x80 + c0) # bs)"
    using c1 lo hi by (subst dec_cont) auto
  also have "\<dots> = ((c2 * 0x40 + (0x80 + c1) mod 0x40) * 0x40 + (0x80 + c0) mod 0x40)
                    # utf8_decode 0 0 0 0x80 0xBF bs"
    using c0 by (intro dec_last) simp_all
  finally show ?thesis by (simp only: e cont_byte [OF c0] cont_byte [OF c1] cp [symmetric])
qed

lemma utf8_four:
  assumes "0xFFFF < cp" "cp < 0x110000"
  shows "utf8_decode 0 0 0 0x80 0xBF (utf8_encode_cp cp @ bs) = cp # utf8_decode 0 0 0 0x80 0xBF bs"
proof -
  define c0 where "c0 = cp mod 0x40"
  define c1 where "c1 = (cp div 0x40) mod 0x40"
  define c2 where "c2 = (cp div 0x1000) mod 0x40"
  define c3 where "c3 = cp div 0x40000"
  note d = base64_digits [of cp, folded c0_def c1_def c2_def c3_def]
  have c0: "c0 < 0x40" and c1: "c1 < 0x40" and c2: "c2 < 0x40" by (rule d)+
  have cp: "cp = ((c3 * 0x40 + c2) * 0x40 + c1) * 0x40 + c0"
    using d(1) by (simp add: algebra_simps)
  have c3: "c3 \<le> 4" using assms(2) d(1) by linarith
  have lo: "c3 = 0 \<Longrightarrow> 0x10 \<le> c2" using assms(1) d(1) c0 c1 by linarith
  have hi: "c3 = 4 \<Longrightarrow> c2 < 0x10" using assms(2) d(1) by linarith
  have e: "utf8_encode_cp cp @ bs =
      (c3 + 0xF0) # (0x80 + c2) # (0x80 + c1) # (0x80 + c0) # bs"
    using assms by (simp add: utf8_encode_cp_def c0_def c1_def c2_def c3_def)
  have v1: "(c3 + 0xF0) mod 8 = c3"
    using mod_shift [of c3 8 30] c3 by simp
  have "utf8_decode 0 0 0 0x80 0xBF ((c3 + 0xF0) # (0x80 + c2) # (0x80 + c1) # (0x80 + c0) # bs)
      = utf8_decode c3 0 3 (if c3 = 0 then 0x90 else 0x80) (if c3 = 4 then 0x8F else 0xBF)
          ((0x80 + c2) # (0x80 + c1) # (0x80 + c0) # bs)"
    using c3 by (simp add: dec_lead4 v1)
  also have "\<dots> = utf8_decode (c3 * 0x40 + (0x80 + c2) mod 0x40) 1 3 0x80 0xBF
                      ((0x80 + c1) # (0x80 + c0) # bs)"
    using c2 lo hi by (subst dec_cont) auto
  also have "\<dots> = utf8_decode ((c3 * 0x40 + (0x80 + c2) mod 0x40) * 0x40 + (0x80 + c1) mod 0x40)
                      2 3 0x80 0xBF ((0x80 + c0) # bs)"
    using c1 dec_cont [where needed = 3 and seen = 1 and b = "0x80 + c1" and lower = "0x80"
        and upper = "0xBF" and cp = "c3 * 0x40 + (0x80 + c2) mod 0x40" and bs = "(0x80 + c0) # bs"]
    by (simp add: numeral_2_eq_2)
  also have "\<dots> = (((c3 * 0x40 + (0x80 + c2) mod 0x40) * 0x40 + (0x80 + c1) mod 0x40) * 0x40
                      + (0x80 + c0) mod 0x40) # utf8_decode 0 0 0 0x80 0xBF bs"
    using c0 by (intro dec_last) simp_all
  finally show ?thesis
    by (simp only: e cont_byte [OF c0] cont_byte [OF c1] cont_byte [OF c2] cp [symmetric])
qed

lemma utf8_decode_encode_cp:
  assumes "scalar cp"
  shows "utf8_decode 0 0 0 0x80 0xBF (utf8_encode_cp cp @ bs) = cp # utf8_decode 0 0 0 0x80 0xBF bs"
proof -
  consider "cp \<le> 0x7F" | "0x7F < cp" "cp \<le> 0x7FF" | "0x7FF < cp" "cp \<le> 0xFFFF"
    | "0xFFFF < cp" "cp < 0x110000"
    using assms unfolding scalar_def by linarith
  then show ?thesis
  proof cases
    case 1
    then show ?thesis by (simp add: utf8_encode_cp_def utf8_decode.simps)
  next
    case 2
    then show ?thesis by (rule utf8_two)
  next
    case 3
    then show ?thesis using assms by (intro utf8_three)
  next
    case 4
    then show ?thesis by (rule utf8_four)
  qed
qed

lemma utf8_decode_encode:
  "list_all scalar cps \<Longrightarrow> utf8_decode 0 0 0 0x80 0xBF (utf8_encode cps) = cps"
proof (induction cps)
  case Nil
  show ?case by (simp add: utf8_encode_def utf8_decode.simps)
next
  case (Cons c cps)
  then show ?case
    using utf8_decode_encode_cp [of c "utf8_encode cps"] by (simp add: utf8_encode_def)
qed


lemma lead_mod: "0xD800 \<le> c \<Longrightarrow> c < 0xDC00 \<Longrightarrow> c mod 0x400 = c - (0xD800::nat)"
  using mod_shift [of "c - 0xD800" "0x400" 54] by simp

lemma trail_mod: "0xDC00 \<le> d \<Longrightarrow> d \<le> 0xDFFF \<Longrightarrow> d mod 0x400 = d - (0xDC00::nat)"
  using mod_shift [of "d - 0xDC00" "0x400" 55] by simp

lemma pair_scalar:
  "0xD800 \<le> c \<Longrightarrow> c < 0xDC00 \<Longrightarrow> 0xDC00 \<le> d \<Longrightarrow> d \<le> 0xDFFF \<Longrightarrow>
   scalar (0x10000 + 0x400 * (c mod 0x400) + d mod 0x400)"
  by (simp add: lead_mod trail_mod scalar_def)

lemma pair_utf16:
  assumes "0xD800 \<le> c" "c < 0xDC00" "0xDC00 \<le> d" "d \<le> 0xDFFF"
  shows "utf16_encode_cp (0x10000 + 0x400 * (c mod 0x400) + d mod 0x400) = [c, d]"
proof -
  define a where "a = c - 0xD800"
  define b where "b = d - 0xDC00"
  have b: "b < 0x400" using assms by (simp add: b_def)
  have "utf16_encode_cp (0x10000 + 0x400 * a + b) = [0xD800 + a, 0xDC00 + b]"
    using b by (simp add: utf16_encode_cp_def)
  then show ?thesis
    using assms by (simp add: lead_mod trail_mod a_def b_def)
qed

lemma scalar_FFFD: "scalar 0xFFFD"
  by (simp add: scalar_def)

lemma to_scalar_values_scalar:
  "list_all (\<lambda>c. c < 0x10000) cs \<Longrightarrow> list_all scalar (to_scalar_values cs)"
proof (induction cs rule: to_scalar_values.induct)
  case 1
  show ?case by simp
next
  case (2 c cs)
  show ?case
  proof (cases "c < 0xD800 \<or> 0xDFFF < c")
    case True
    then show ?thesis using 2 by (auto simp: scalar_def)
  next
    case ns: False
    show ?thesis
    proof (cases "0xDC00 \<le> c")
      case True
      then show ?thesis using ns 2 by (simp add: scalar_def)
    next
      case lead: False
      show ?thesis
      proof (cases cs)
        case Nil
        then show ?thesis using ns lead by (simp add: scalar_def)
      next
        case (Cons d ds)
        then show ?thesis using ns lead 2 by (auto simp: pair_scalar scalar_FFFD)
      qed
    qed
  qed
qed

lemma utf16_of_well_formed:
  "isWellFormed cs \<Longrightarrow> list_all (\<lambda>c. c < 0x10000) cs \<Longrightarrow>
   utf16_encode (to_scalar_values cs) = cs"
proof (induction cs rule: to_scalar_values.induct)
  case 1
  show ?case by (simp add: utf16_encode_def)
next
  case (2 c cs)
  show ?case
  proof (cases "c < 0xD800 \<or> 0xDFFF < c")
    case True
    then show ?thesis using 2 by (auto simp: utf16_encode_def utf16_encode_cp_def)
  next
    case ns: False
    then have lead: "\<not> 0xDC00 \<le> c" using "2.prems" by auto
    obtain d ds where cs: "cs = d # ds" and d: "0xDC00 \<le> d" "d \<le> 0xDFFF" and wf: "isWellFormed ds"
      using ns lead "2.prems" by (cases cs) auto
    have "utf16_encode (to_scalar_values ds) = ds"
      using "2.IH"(3) [OF ns lead cs] d wf "2.prems"(2) cs by simp
    then show ?thesis
      using ns lead cs d pair_utf16 [of c d] by (simp add: utf16_encode_def)
  qed
qed

lemma strip_BOM_to_scalar_values:
  "(case cs of [] \<Rightarrow> True | c # _ \<Rightarrow> c \<noteq> 0xFEFF) \<Longrightarrow>
   strip_BOM (to_scalar_values cs) = to_scalar_values cs"
  by (cases cs) (auto simp: strip_BOM_def split: list.splits)


lemma utf8_encode_cp_bytes: "cp < 0x110000 \<Longrightarrow> list_all (\<lambda>b. b < 0x100) (utf8_encode_cp cp)"
proof -
  assume a: "cp < 0x110000"
  note d = base64_digits [of cp]
  have "cp \<le> 0x7FF \<Longrightarrow> cp div 0x40 < 0x20" using d(1,2,4,5,6) by linarith
  moreover have "cp \<le> 0xFFFF \<Longrightarrow> cp div 0x1000 < 0x10" using d(1,3,4,5,6) by linarith
  moreover have "cp div 0x40000 < 0x10" using a d(1,4,5,6) by linarith
  moreover have "cp mod 0x40 < 0x40" "cp div 0x40 mod 0x40 < 0x40" "cp div 0x1000 mod 0x40 < 0x40"
    by simp_all
  ultimately show ?thesis
    unfolding utf8_encode_cp_def by (simp del: mod_less_divisor) linarith
qed

lemma utf8_encode_bytes:
  "list_all scalar cps \<Longrightarrow> list_all (\<lambda>b. b < 0x100) (utf8_encode cps)"
  by (induction cps) (auto simp: utf8_encode_def scalar_def intro!: utf8_encode_cp_bytes)

lemma unat_of_nat_bytes:
  "list_all (\<lambda>b. b < 0x100) bs \<Longrightarrow> map unat (map of_nat bs :: byte list) = bs"
  by (induction bs) (simp_all add: unat_of_nat)

lemma code_units_bounded: "list_all (\<lambda>c. c < 0x10000) (map unat (s :: jsstring))"
proof (induction s)
  case Nil
  show ?case by simp
next
  case (Cons w s)
  have "unat w < 2 ^ LENGTH(16)" by (rule unsigned_less)
  then show ?case using Cons by simp
qed

lemma TextDecoder_TextEncoder:
  assumes wf: "isWellFormed (map unat s)"
    and nb: "case s of [] \<Rightarrow> True | c # _ \<Rightarrow> c \<noteq> 0xFEFF"
  shows "TextDecoder_decode (TextEncoder_encode s) = s"
proof -
  let ?u = "map unat s"
  have sc: "list_all scalar (to_scalar_values ?u)"
    by (rule to_scalar_values_scalar [OF code_units_bounded])
  have nb': "case ?u of [] \<Rightarrow> True | c # _ \<Rightarrow> c \<noteq> 0xFEFF"
  proof (cases s)
    case Nil
    then show ?thesis by simp
  next
    case (Cons c cs)
    then have "c \<noteq> 0xFEFF" using nb by simp
    then have "unat c \<noteq> unat (0xFEFF :: 16 word)" by (simp only: word_unat_eq_iff [symmetric] not_False_eq_True)
    then show ?thesis using Cons by simp
  qed
  have "map unat (TextEncoder_encode s) = utf8_encode (to_scalar_values ?u)"
    unfolding TextEncoder_encode_def by (rule unat_of_nat_bytes [OF utf8_encode_bytes [OF sc]])
  then have "TextDecoder_decode (TextEncoder_encode s)
      = map of_nat (utf16_encode (strip_BOM (to_scalar_values ?u)))"
    unfolding TextDecoder_decode_def by (simp only: utf8_decode_encode [OF sc])
  also have "\<dots> = map of_nat (utf16_encode (to_scalar_values ?u))"
    by (simp only: strip_BOM_to_scalar_values [OF nb'])
  also have "\<dots> = map of_nat ?u"
    by (simp only: utf16_of_well_formed [OF wf code_units_bounded])
  also have "\<dots> = s"
    by (induction s) simp_all
  finally show ?thesis .
qed

section \<open>Properties of the encryption module\<close>

lemma Uint8Array_Array_from: "Uint8Array (Array_from b) = b"
  by (induction b) (simp_all add: Uint8Array_def Array_from_def)

lemma deriveSharedKey_Inr:
  assumes "deriveSharedKey W priv pub = Inr k"
  shows "k = \<lparr>algorithm = AES_GCM, kind = Secret, extractable = False, usages = [Encrypt, Decrypt],
               handle = take 32 (X25519_fn W (handle priv) (handle pub))\<rparr>"
    and "length (handle k) = 32"
  using assms
  by (auto simp: deriveSharedKey_def subtle_deriveKey_def X25519_deriveBits_def
      AES_GCM_importKey_raw_def Let_def split: if_splits sum.splits)

lemma deriveSharedKey_usable: "deriveSharedKey W priv pub = Inr k \<Longrightarrow> usable_key k"
  using deriveSharedKey_Inr [of W priv pub k] by (simp add: usable_key_def)

lemma encryptMessage_usable:
  assumes "usable_key k"
  shows "encryptMessage W message k r =
     (Inr \<lparr>ciphertext = Array_from (AES_GCM_seal W (handle k) (map r [0..<12])
                                       (TextEncoder_encode message)),
           iv = Array_from (map r [0..<12])\<rparr>, \<lambda>i. r (i + 12))"
  using assms
  by (simp add: encryptMessage_def getRandomValues_def subtle_encrypt_def usable_key_def)

lemma decryptMessage_sealed:
  assumes "aead_correct W" "usable_key k" "length n = 12"
  shows "decryptMessage W \<lparr>ciphertext = Array_from (AES_GCM_seal W (handle k) n p),
                            iv = Array_from n\<rparr> k = Inr (TextDecoder_decode p)"
proof -
  have "AES_GCM_open W (handle k) n (AES_GCM_seal W (handle k) n p) = Some p"
    and "length (AES_GCM_seal W (handle k) n p) = length p + 16"
    using assms unfolding aead_correct_def usable_key_def by blast+
  then show ?thesis
    using assms(2)
    by (simp add: decryptMessage_def subtle_decrypt_def Uint8Array_Array_from usable_key_def)
qed

lemma xor_twice: "(x XOR m) XOR m = (x :: byte)"
  by (simp add: xor.assoc)

lemma test_aead_correct: "aead_correct test_platform"
  by (simp add: aead_correct_def test_platform_def test_seal_def test_open_def Let_def
      test_tag_def comp_def xor_twice)

lemma test_derive:
  "deriveSharedKey test_platform (privateKey alice_keys) (publicKey bob_keys) = Inr alice_bob_key"
  by code_simp

lemma alice_bob_key_usable: "usable_key alice_bob_key"
  using test_derive by (rule deriveSharedKey_usable)

lemma js_hi: "js ''hi'' = [0x68, 0x69]"
  by (simp add: js_def)

lemma encode_lone_surrogate: "TextEncoder_encode [0xD800] = [0xEF, 0xBF, 0xBD]"
  by (simp add: TextEncoder_encode_def utf8_encode_def utf8_encode_cp_def)

lemma decode_replacement: "TextDecoder_decode [0xEF, 0xBF, 0xBD] = [0xFFFD]"
  by (simp add: TextDecoder_decode_def utf8_decode.simps strip_BOM_def utf16_encode_def
      utf16_encode_cp_def)

text \<open>The decoder drops a leading U+FEFF: U+FEFF followed by \<open>h\<close> comes back as \<open>h\<close>.\<close>

lemma leading_BOM_dropped: "TextDecoder_decode (TextEncoder_encode [0xFEFF, 0x68]) = [0x68]"
  by (simp add: TextEncoder_encode_def TextDecoder_decode_def utf8_encode_def
      utf8_encode_cp_def utf8_decode.simps strip_BOM_def utf16_encode_def utf16_encode_cp_def)

text \<open>
  C1 (amended). For a platform whose cipher opens what it sealed, a key \<open>K\<close> returned by
  \<open>deriveSharedKey\<close>, and a plaintext \<open>P\<close> that is a well-formed string (no surrogate
  outside a pair) and does not begin with U+FEFF: \<open>encryptMessage\<close> succeeds whatever
  the generator, and \<open>decryptMessage\<close> of its result under \<open>K\<close> returns \<open>P\<close>.
\<close>

theorem encrypt_decrypt_roundtrip:
  assumes "aead_correct W"
    and "deriveSharedKey W myPrivateKey theirPublicKey = Inr K"
    and "isWellFormed (map unat P)"
    and "\<not> starts_with_BOM P"
  shows "\<exists>E r'. encryptMessage W P K r = (Inr E, r') \<and> decryptMessage W E K = Inr P"
proof -
  have u: "usable_key K" using assms(2) by (rule deriveSharedKey_usable)
  have nb: "case P of [] \<Rightarrow> True | c # _ \<Rightarrow> c \<noteq> 0xFEFF"
    using assms(4) by (simp add: starts_with_BOM_def split: list.splits)
  have "decryptMessage W \<lparr>ciphertext = Array_from (AES_GCM_seal W (handle K) (map r [0..<12])
                                       (TextEncoder_encode P)),
           iv = Array_from (map r [0..<12])\<rparr> K = Inr P"
    using decryptMessage_sealed [OF assms(1) u, of "map r [0..<12]" "TextEncoder_encode P"]
      TextDecoder_TextEncoder [OF assms(3) nb] by simp
  then show ?thesis
    using encryptMessage_usable [OF u, of W P r] by simp
qed

theorem encrypt_decrypt_roundtrip_witness:
  "\<exists>E r'. encryptMessage test_platform (js ''hi'') alice_bob_key alice_rng = (Inr E, r') \<and>
     decryptMessage test_platform E alice_bob_key = Inr (js ''hi'')"
  using encrypt_decrypt_roundtrip [OF test_aead_correct test_derive, of "js ''hi''" alice_rng]
  by (simp add: js_hi starts_with_BOM_def)

text \<open>
  C1 as stated fails on a plaintext holding a lone surrogate: the string of the single
  code unit U+D800 is encrypted as the three octets of U+FFFD, and decrypts to U+FFFD.
\<close>

theorem roundtrip_lone_surrogate_counterexample:
  "fst (encryptMessage test_platform [0xD800] alice_bob_key alice_rng) =
     Inr \<lparr>ciphertext = Array_from (test_seal (handle alice_bob_key) (map alice_rng [0..<12])
                                      [0xEF, 0xBF, 0xBD]),
          iv = Array_from (map alice_rng [0..<12])\<rparr> \<and>
   decryptMessage test_platform
     \<lparr>ciphertext = Array_from (test_seal (handle alice_bob_key) (map alice_rng [0..<12])
                                 [0xEF, 0xBF, 0xBD]),
      iv = Array_from (map alice_rng [0..<12])\<rparr> alice_bob_key = Inr [0xFFFD] \<and>
   [0xFFFD] \<noteq> [0xD800 :: 16 word]"
proof -
  have s: "AES_GCM_seal test_platform = test_seal" by (simp add: test_platform_def)
  show ?thesis
    using encryptMessage_usable [OF alice_bob_key_usable, of test_platform "[0xD800]" alice_rng]
      decryptMessage_sealed [OF test_aead_correct alice_bob_key_usable,
        of "map alice_rng [0..<12]" "[0xEF, 0xBF, 0xBD]"]
    by (simp add: encode_lone_surrogate decode_replacement s)
qed









text \<open>
  C3 (amended). The key returned by \<open>deriveSharedKey\<close> is an AES-GCM key whose 32 octets
  are the first 32 octets of what the X25519 function returns for the two keys, which is
  all of it when the function returns 32 octets; nothing is computed from the shared
  secret in between.
\<close>

theorem deriveSharedKey_is_raw_secret:
  assumes "deriveSharedKey W myPrivateKey theirPublicKey = Inr K"
  shows "algorithm K = AES_GCM \<and> length (handle K) = 32 \<and>
         handle K = take 32 (X25519_fn W (handle myPrivateKey) (handle theirPublicKey)) \<and>
         (length (X25519_fn W (handle myPrivateKey) (handle theirPublicKey)) = 32 \<longrightarrow>
            handle K = X25519_fn W (handle myPrivateKey) (handle theirPublicKey))"
  using deriveSharedKey_Inr [OF assms] by simp

lemma test_X25519_length: "length (test_X25519 a b) = min (length a) (length b)"
  by (simp add: test_X25519_def)

theorem deriveSharedKey_is_raw_secret_witness:
  "algorithm alice_bob_key = AES_GCM \<and> length (handle alice_bob_key) = 32 \<and>
   handle alice_bob_key =
     X25519_fn test_platform (handle (privateKey alice_keys)) (handle (publicKey bob_keys))"
proof -
  have "length (X25519_fn test_platform (handle (privateKey alice_keys))
          (handle (publicKey bob_keys))) = 32"
    by (simp add: test_platform_def test_X25519_length alice_keys_def bob_keys_def
        basepoint_def)
  then show ?thesis
    using deriveSharedKey_is_raw_secret [OF test_derive] by simp
qed

text \<open>
  C3 as stated fails: the octets of the cipher key derived by Alice for Bob are the
  output of the X25519 function itself.
\<close>

theorem deriveSharedKey_raw_counterexample:
  "deriveSharedKey test_platform (privateKey alice_keys) (publicKey bob_keys) =
     Inr \<lparr>algorithm = AES_GCM, kind = Secret, extractable = False, usages = [Encrypt, Decrypt],
          handle = X25519_fn test_platform (handle (privateKey alice_keys))
                     (handle (publicKey bob_keys))\<rparr>"
  unfolding test_derive
  by (simp add: alice_bob_key_def alice_keys_def bob_keys_def test_platform_def)

lemma generateKeyPair_Inr:
  assumes "generateKeyPair W r = (Inr A, r')"
  shows "publicKey A = \<lparr>algorithm = X25519, kind = Public, extractable = True, usages = [],
                          handle = X25519_fn W (map r [0..<32]) basepoint\<rparr>"
    and "privateKey A = \<lparr>algorithm = X25519, kind = Private, extractable = True,
                           usages = [DeriveKey, DeriveBits], handle = map r [0..<32]\<rparr>"
    and "r' = (\<lambda>i. r (i + 32))"
  using assms
  by (auto simp: generateKeyPair_def subtle_generateKey_def getRandomValues_def
      split: if_splits)

lemma deriveSharedKey_generated:
  "deriveSharedKey W
     \<lparr>algorithm = X25519, kind = Private, extractable = True,
       usages = [DeriveKey, DeriveBits], handle = a\<rparr>
     \<lparr>algorithm = X25519, kind = Public, extractable = True, usages = [], handle = p\<rparr>
   = (if list_all (\<lambda>b. b = 0) (X25519_fn W a p) \<or> length (X25519_fn W a p) < 32
      then Inl CannotDeriveSharedKey
      else Inr \<lparr>algorithm = AES_GCM, kind = Secret, extractable = False,
                usages = [Encrypt, Decrypt], handle = take 32 (X25519_fn W a p)\<rparr>)"
  by (auto simp: deriveSharedKey_def subtle_deriveKey_def X25519_deriveBits_def
      AES_GCM_importKey_raw_def Let_def)

text \<open>
  C8. On a platform whose X25519 function is a Diffie-Hellman function, two key pairs
  returned by \<open>generateKeyPair\<close> derive the same result in both directions: the same
  key, or the same failure.
\<close>

theorem deriveSharedKey_symmetric:
  assumes "dh_commutes W"
    and "generateKeyPair W rA = (Inr A, rA')"
    and "generateKeyPair W rB = (Inr B, rB')"
  shows "deriveSharedKey W (privateKey A) (publicKey B) =
         deriveSharedKey W (privateKey B) (publicKey A)"
proof -
  note a = generateKeyPair_Inr [OF assms(2)]
  note b = generateKeyPair_Inr [OF assms(3)]
  have "X25519_fn W (map rA [0..<32]) (X25519_fn W (map rB [0..<32]) basepoint) =
        X25519_fn W (map rB [0..<32]) (X25519_fn W (map rA [0..<32]) basepoint)"
    using assms(1) unfolding dh_commutes_def by simp
  then show ?thesis
    unfolding a(1,2) b(1,2) deriveSharedKey_generated by simp
qed

lemma test_dh_commutes: "dh_commutes test_platform"
proof -
  have "map2 (\<lambda>a b. a XOR b) a (map2 (\<lambda>a b. a XOR b) b c) =
        map2 (\<lambda>a b. a XOR b) b (map2 (\<lambda>a b. a XOR b) a c)" for a b c :: bytes
    by (rule nth_equalityI) (auto simp: xor.left_commute)
  then show ?thesis
    by (simp add: dh_commutes_def test_platform_def test_X25519_def)
qed

lemma alice_generated:
  "generateKeyPair test_platform alice_rng = (Inr alice_keys, \<lambda>i. alice_rng (i + 32))"
  by (simp add: generateKeyPair_def subtle_generateKey_def getRandomValues_def
      test_platform_def alice_keys_def)

lemma bob_generated:
  "generateKeyPair test_platform bob_rng = (Inr bob_keys, \<lambda>i. bob_rng (i + 32))"
  by (simp add: generateKeyPair_def subtle_generateKey_def getRandomValues_def
      test_platform_def bob_keys_def)

theorem deriveSharedKey_symmetric_witness:
  "deriveSharedKey test_platform (privateKey bob_keys) (publicKey alice_keys) = Inr alice_bob_key"
  using deriveSharedKey_symmetric [OF test_dh_commutes alice_generated bob_generated]
  by (simp add: test_derive)

lemma toString16_small: "n < 16 \<Longrightarrow> toString16 n = [hex_digit n]"
  by simp

declare toString16.simps [simp del]

lemma toString16_byte: "16 \<le> n \<Longrightarrow> n < 256 \<Longrightarrow> toString16 n = [hex_digit (n div 16), hex_digit (n mod 16)]"
proof -
  assume a: "16 \<le> n" "n < 256"
  then have "n div 16 < 16" by simp
  then show ?thesis using a by (subst toString16.simps) (simp add: toString16_small)
qed

lemma hex_byte:
  assumes "n < 256"
  shows "padStart 2 0x30 (toString16 n) = [hex_digit (n div 16), hex_digit (n mod 16)]"
proof (cases "n < 16")
  case True
  then show ?thesis by (simp add: padStart_def hex_digit_def toString16_small)
next
  case False
  then show ?thesis using assms by (simp add: padStart_def toString16_byte)
qed

lemma toUpperCase_hex_digit: "d < 16 \<Longrightarrow> toUpperCase [hex_digit d] = [HEX_digit d]"
proof -
  assume "d < 16"
  then have "d \<in> set [0..<16]" by simp
  moreover have "list_all (\<lambda>d. toUpperCase [hex_digit d] = [HEX_digit d]) [0..<16]"
    by code_simp
  ultimately show ?thesis
    unfolding list_all_iff by blast
qed

lemma toUpperCase_append: "toUpperCase (a @ b) = toUpperCase a @ toUpperCase b"
  by (simp add: toUpperCase_def)

lemma take_concat_pairs:
  "take (2 * k) (concat (map (\<lambda>b. [f b, g b]) xs)) = concat (map (\<lambda>b. [f b, g b]) (take k xs))"
proof (induction xs arbitrary: k)
  case Nil
  show ?case by simp
next
  case (Cons x xs)
  show ?case
  proof (cases k)
    case 0
    then show ?thesis by simp
  next
    case (Suc j)
    then show ?thesis using Cons [of j] by simp
  qed
qed

lemma hashHex_eq:
  "concat (map (\<lambda>b. padStart 2 0x30 (toString16 (nat b))) (Array_from h)) =
   concat (map (\<lambda>b. [hex_digit (unat b div 16), hex_digit (unat b mod 16)]) h)"
proof -
  have "padStart 2 0x30 (toString16 (nat (uint b))) =
        [hex_digit (unat b div 16), hex_digit (unat b mod 16)]" for b :: byte
  proof -
    have "unat b < 2 ^ LENGTH(8)" by (rule unsigned_less)
    then have "unat b < 256" by simp
    then show ?thesis using hex_byte [of "unat b"] by (simp add: nat_uint_eq)
  qed
  then show ?thesis by (simp add: Array_from_def comp_def)
qed

lemma toUpperCase_hex:
  "toUpperCase (concat (map (\<lambda>b. [hex_digit (unat b div 16), hex_digit (unat b mod 16)]) (h :: bytes))) =
   concat (map (\<lambda>b. [HEX_digit (unat b div 16), HEX_digit (unat b mod 16)]) h)"
proof (induction h)
  case Nil
  show ?case by (simp add: toUpperCase_def)
next
  case (Cons b h)
  have "unat b < 2 ^ LENGTH(8)" by (rule unsigned_less)
  then have "unat b div 16 < 16" "unat b mod 16 < 16" by simp_all
  then have "toUpperCase [hex_digit (unat b div 16), hex_digit (unat b mod 16)] =
             [HEX_digit (unat b div 16), HEX_digit (unat b mod 16)]"
    using toUpperCase_append [of "[hex_digit (unat b div 16)]" "[hex_digit (unat b mod 16)]"]
    by (simp add: toUpperCase_hex_digit)
  then show ?case
    using Cons toUpperCase_append
      [of "[hex_digit (unat b div 16), hex_digit (unat b mod 16)]"
          "concat (map (\<lambda>b. [hex_digit (unat b div 16), hex_digit (unat b mod 16)]) h)"]
    by simp
qed

lemma fingerprint_exported:
  "subtle_exportKey_raw pub = Inr raw \<Longrightarrow> getPublicKeyFingerprint W pub = fingerprint_spec W raw"
proof -
  assume "subtle_exportKey_raw pub = Inr raw"
  then have "getPublicKeyFingerprint W pub =
      toUpperCase (take 16 (concat (map (\<lambda>b. [hex_digit (unat b div 16), hex_digit (unat b mod 16)])
                                        (SHA_256 W raw))))"
    by (simp add: getPublicKeyFingerprint_def hashHex_eq substring_def)
  also have "\<dots> = toUpperCase (concat (map (\<lambda>b. [hex_digit (unat b div 16), hex_digit (unat b mod 16)])
                                          (take 8 (SHA_256 W raw))))"
    using take_concat_pairs [of 8 "\<lambda>b. hex_digit (unat b div 16)" "\<lambda>b. hex_digit (unat b mod 16)"
        "SHA_256 W raw"] by simp
  finally show ?thesis
    by (simp add: toUpperCase_hex fingerprint_spec_def)
qed

lemma fingerprint_spec_length: "digest_length W \<Longrightarrow> length (fingerprint_spec W raw) = 16"
proof -
  assume "digest_length W"
  then have "length (take 8 (SHA_256 W raw)) = 8" by (simp add: digest_length_def)
  moreover have "length (concat (map (\<lambda>b. [f b, g b]) xs)) = 2 * length xs" for f g :: "byte \<Rightarrow> 16 word" and xs
    by (induction xs) simp_all
  ultimately show ?thesis by (simp add: fingerprint_spec_def del: length_take)
qed

text \<open>
  C9 (amended). On a platform whose SHA-256 returns 32 octets, the fingerprint of a
  public key that may be exported is what the specification describes: the first eight
  octets of the SHA-256 hash of the key's raw encoding in sixteen upper-case hexadecimal
  digits. For a key that may not be exported, the fingerprint is the empty string. Being
  a function of the key, the fingerprint is the same at every call.
\<close>

theorem fingerprint_refines_spec:
  assumes "digest_length W"
  shows "(extractable pub \<and> kind pub = Public \<longrightarrow>
            getPublicKeyFingerprint W pub = fingerprint_spec W (handle pub) \<and>
            length (getPublicKeyFingerprint W pub) = 16) \<and>
         (\<not> extractable pub \<longrightarrow> getPublicKeyFingerprint W pub = [])"
proof -
  have "getPublicKeyFingerprint W pub = fingerprint_spec W (handle pub)"
    if "extractable pub" "kind pub = Public"
    using that by (intro fingerprint_exported) (simp add: subtle_exportKey_raw_def)
  moreover have "getPublicKeyFingerprint W pub = []" if "\<not> extractable pub"
    using that by (simp add: getPublicKeyFingerprint_def subtle_exportKey_raw_def)
  ultimately show ?thesis
    using fingerprint_spec_length [OF assms] by simp
qed

lemma test_digest_length: "digest_length test_platform"
  by (simp add: digest_length_def test_platform_def test_SHA_256_def)

lemma bob_fingerprint:
  "getPublicKeyFingerprint test_platform (publicKey bob_keys) = js ''F900070E151C232A''"
  by code_simp

lemma bob_imported:
  "importPublicKey \<lparr>key = Array_from (handle (publicKey bob_keys))\<rparr> =
     Inr ((publicKey bob_keys)\<lparr>extractable := False\<rparr>)"
  by (simp add: importPublicKey_def subtle_importKey_raw_X25519_def Uint8Array_Array_from
      bob_keys_def test_X25519_length basepoint_def)

theorem fingerprint_refines_spec_witness:
  "fingerprint_spec test_platform (handle (publicKey bob_keys)) = js ''F900070E151C232A'' \<and>
   length (js ''F900070E151C232A'') = 16 \<and>
   getPublicKeyFingerprint test_platform ((publicKey bob_keys)\<lparr>extractable := False\<rparr>) = []"
proof -
  have e: "extractable (publicKey bob_keys) \<and> kind (publicKey bob_keys) = Public"
    by (simp add: bob_keys_def)
  have n: "\<not> extractable ((publicKey bob_keys)\<lparr>extractable := False\<rparr>)"
    by simp
  have a: "getPublicKeyFingerprint test_platform (publicKey bob_keys) =
             fingerprint_spec test_platform (handle (publicKey bob_keys))"
    and l: "length (getPublicKeyFingerprint test_platform (publicKey bob_keys)) = 16"
    using fingerprint_refines_spec [OF test_digest_length, of "publicKey bob_keys"] e by blast+
  have b: "getPublicKeyFingerprint test_platform ((publicKey bob_keys)\<lparr>extractable := False\<rparr>) = []"
    using fingerprint_refines_spec [OF test_digest_length,
        of "(publicKey bob_keys)\<lparr>extractable := False\<rparr>"] n by blast
  show ?thesis
    using a l b unfolding bob_fingerprint by (intro conjI) (rule sym, assumption+)
qed

text \<open>
  C9 as stated fails for the public keys this module imports: \<open>importPublicKey\<close> marks
  the key as not extractable, its export is refused, and the fingerprint is the empty
  string instead of sixteen digits.
\<close>

theorem fingerprint_imported_key_counterexample:
  "importPublicKey \<lparr>key = Array_from (handle (publicKey bob_keys))\<rparr> =
     Inr ((publicKey bob_keys)\<lparr>extractable := False\<rparr>) \<and>
   getPublicKeyFingerprint test_platform ((publicKey bob_keys)\<lparr>extractable := False\<rparr>) = [] \<and>
   getPublicKeyFingerprint test_platform (publicKey bob_keys) = js ''F900070E151C232A''"
  by (intro conjI bob_imported bob_fingerprint)
    (simp add: getPublicKeyFingerprint_def subtle_exportKey_raw_def)

section \<open>Properties of the chat room\<close>

lemma find_None_iff': "find P xs = None \<longleftrightarrow> list_all (\<lambda>x. \<not> P x) xs"
  by (induction xs) simp_all

text \<open>
  C4. An incoming message whose sender is the local participant is skipped. A message
  from someone else that carries envelopes is dropped when no envelope names the local
  participant, when one does but no key is stored for the sender, and when the first
  envelope that does cannot be decrypted under the stored key. In each of these cases
  the handler returns the state it was given, whole: nothing is displayed, stored or
  queued. Whatever the payload, the handler returns, and it leaves the state unchanged
  unless it reports a delivery.
\<close>

theorem onMessage_drops:
  "(p_senderId payload = userId st \<longrightarrow> onMessage W st payload = (st, OwnMessageSkipped)) \<and>
   (p_senderId payload \<noteq> userId st \<and> p_encryptedMessages payload = Some envelopes \<and>
      list_all (\<lambda>msg. recipientId msg \<noteq> userId st) envelopes \<longrightarrow>
        onMessage W st payload = (st, NoCiphertextForMe)) \<and>
   (p_senderId payload \<noteq> userId st \<and> p_encryptedMessages payload = Some envelopes \<and>
      \<not> list_all (\<lambda>msg. recipientId msg \<noteq> userId st) envelopes \<and>
      Map_get (sharedKeysRef st) (p_senderId payload) = None \<longrightarrow>
        onMessage W st payload = (st, NoKeyForSender)) \<and>
   (p_senderId payload \<noteq> userId st \<and> p_encryptedMessages payload = Some envelopes \<and>
      find (\<lambda>msg. recipientId msg = userId st) envelopes = Some mine \<and>
      Map_get (sharedKeysRef st) (p_senderId payload) = Some sharedKey \<and>
      decryptMessage W (encrypted mine) sharedKey = Inl e \<longrightarrow>
        onMessage W st payload = (st, DecryptionFailed e)) \<and>
   (snd (onMessage W st payload) \<notin> {Delivered, DeliveredLegacy} \<longrightarrow>
      fst (onMessage W st payload) = st)"
proof (intro conjI impI)
  assume "p_senderId payload = userId st"
  then show "onMessage W st payload = (st, OwnMessageSkipped)"
    by (simp add: onMessage_def)
next
  assume "p_senderId payload \<noteq> userId st \<and> p_encryptedMessages payload = Some envelopes \<and>
      list_all (\<lambda>msg. recipientId msg \<noteq> userId st) envelopes"
  then show "onMessage W st payload = (st, NoCiphertextForMe)"
    using find_None_iff' [of "\<lambda>msg. recipientId msg = userId st" envelopes]
    by (simp add: onMessage_def)
next
  assume a: "p_senderId payload \<noteq> userId st \<and> p_encryptedMessages payload = Some envelopes \<and>
      \<not> list_all (\<lambda>msg. recipientId msg \<noteq> userId st) envelopes \<and>
      Map_get (sharedKeysRef st) (p_senderId payload) = None"
  then obtain m where "find (\<lambda>msg. recipientId msg = userId st) envelopes = Some m"
    using find_None_iff' [of "\<lambda>msg. recipientId msg = userId st" envelopes] by auto
  then show "onMessage W st payload = (st, NoKeyForSender)"
    using a by (simp add: onMessage_def)
next
  assume "p_senderId payload \<noteq> userId st \<and> p_encryptedMessages payload = Some envelopes \<and>
      find (\<lambda>msg. recipientId msg = userId st) envelopes = Some mine \<and>
      Map_get (sharedKeysRef st) (p_senderId payload) = Some sharedKey \<and>
      decryptMessage W (encrypted mine) sharedKey = Inl e"
  then show "onMessage W st payload = (st, DecryptionFailed e)"
    by (simp add: onMessage_def)
next
  assume "snd (onMessage W st payload) \<notin> {Delivered, DeliveredLegacy}"
  then show "fst (onMessage W st payload) = st"
    by (auto simp: onMessage_def split: option.splits sum.splits if_splits)
qed


text \<open>
  C10. A payload from another sender without \<open>encryptedMessages\<close> and with the single
  field \<open>encrypted\<close> is read through that field alone: the format names no recipient
  and the handler looks for none. With a key stored for the sender, the ciphertext is
  decrypted under it and, when that succeeds, the message is appended to the display;
  when it fails, the state is unchanged.
\<close>

theorem onMessage_legacy:
  assumes "p_senderId payload \<noteq> userId st"
    and "p_encryptedMessages payload = None"
    and "p_encrypted payload = Some legacy"
    and "Map_get (sharedKeysRef st) (p_senderId payload) = Some sharedKey"
  shows "(\<forall>decryptedContent. decryptMessage W legacy sharedKey = Inr decryptedContent \<longrightarrow>
            onMessage W st payload =
              (st\<lparr>messages := messages st @
                    [\<lparr>m_id = p_messageId payload, m_senderId = p_senderId payload,
                       m_senderNickname = p_senderNickname payload,
                       m_content = decryptedContent,
                       m_timestamp = p_timestamp payload, m_isOwn = False\<rparr>]\<rparr>,
               DeliveredLegacy)) \<and>
         (\<forall>e. decryptMessage W legacy sharedKey = Inl e \<longrightarrow>
            onMessage W st payload = (st, DecryptionFailed e))"
  using assms by (simp add: onMessage_def)

lemma Map_set_keys:
  "map fst (Map_set m k v) = (if k \<in> fst ` set m then map fst m else map fst m @ [k])"
  by (induction m) force+

lemma Map_set_distinct: "distinct (map fst m) \<Longrightarrow> distinct (map fst (Map_set m k v))"
  by (simp add: Map_set_keys)

lemma Map_set_key_set: "fst ` set (Map_set m k v) = insert k (fst ` set m)"
proof -
  have "set (map fst (Map_set m k v)) = insert k (set (map fst m))"
    unfolding Map_set_keys by auto
  then show ?thesis by simp
qed

lemma Map_set_twice: "Map_set (Map_set m k v) k v = Map_set m k v"
  by (induction m) auto

lemma onPublicKey_cases:
  "onPublicKey W myPublicKey now st payload =
    (if pk_userId payload = userId st then (st, OwnKeyIgnored)
     else case importPublicKey (pk_publicKey payload) of
       Inl e \<Rightarrow> (st, KeyExchangeFailed e)
     | Inr theirPublicKey \<Rightarrow>
         (case keyPairRef st of
            None \<Rightarrow> (st, KeyPairMissing)
          | Some keys \<Rightarrow>
              (case deriveSharedKey W (privateKey keys) theirPublicKey of
                 Inl e \<Rightarrow> (st, KeyExchangeFailed e)
               | Inr sharedKey \<Rightarrow>
                   (st\<lparr>sharedKeysRef := Map_set (sharedKeysRef st) (pk_userId payload) sharedKey,
                       sharedKeysVersion := sharedKeysVersion st + 1,
                       sent := (if Map_get (sharedKeysRef st) (pk_userId payload) = None
                                then sent st @
                                  [PublicKeyEvent \<lparr>pk_userId = userId st,
                                     pk_nickname = nicknameRef st,
                                     pk_publicKey = myPublicKey, pk_timestamp = now\<rparr>]
                                else sent st)\<rparr>,
                    ChannelEstablished (Map_get (sharedKeysRef st) (pk_userId payload) = None)))))"
  by (simp add: onPublicKey_def Let_def split: sum.splits option.splits)

text \<open>
  C6. When an announcement from another participant is imported and a key derived from
  it, the handler sends the local public key in reply exactly when the table held no key
  for that participant before; otherwise it sends nothing. The key in the reply is the
  one \<open>handleJoinRoom\<close> exported and announced when joining.
\<close>

theorem onPublicKey_reply_once:
  assumes "handleJoinRoom W t0 r0 st0 = ((Some myPublicKey, st1), r1)"
    and "pk_userId payload \<noteq> userId st"
    and "importPublicKey (pk_publicKey payload) = Inr theirPublicKey"
    and "keyPairRef st = Some keys"
    and "deriveSharedKey W (privateKey keys) theirPublicKey = Inr sharedKey"
  shows "sent st1 = sent st0 @
           [PublicKeyEvent \<lparr>pk_userId = userId st0, pk_nickname = trim (nickname st0),
              pk_publicKey = myPublicKey, pk_timestamp = t0\<rparr>] \<and>
         sent (fst (onPublicKey W myPublicKey now st payload)) =
           (if Map_get (sharedKeysRef st) (pk_userId payload) = None
            then sent st @
              [PublicKeyEvent \<lparr>pk_userId = userId st, pk_nickname = nicknameRef st,
                 pk_publicKey = myPublicKey, pk_timestamp = now\<rparr>]
            else sent st) \<and>
         snd (onPublicKey W myPublicKey now st payload) =
           ChannelEstablished (Map_get (sharedKeysRef st) (pk_userId payload) = None)"
proof -
  have "sent st1 = sent st0 @
           [PublicKeyEvent \<lparr>pk_userId = userId st0, pk_nickname = trim (nickname st0),
              pk_publicKey = myPublicKey, pk_timestamp = t0\<rparr>]"
    using assms(1)
    by (auto simp: handleJoinRoom_def Let_def split: if_splits prod.splits sum.splits)
  then show ?thesis
    using assms(2-5) by (simp add: onPublicKey_cases)
qed

text \<open>
  C7. The key table has at most one entry for a participant and none for the local
  participant; this holds of the empty table and every handler preserves it. Processing
  an announcement again with the same sender and the same public key leaves the table as
  the first processing left it: same entries, same keys, same order.
\<close>

theorem table_inv_preserved:
  assumes "table_inv st"
  shows "table_inv (st\<lparr>sharedKeysRef := []\<rparr>) \<and>
         table_inv (fst (onPublicKey W myPublicKey now st keyPayload)) \<and>
         table_inv (fst (onMessage W st messagePayload)) \<and>
         table_inv (fst (handleSendMessage W messageId now r st)) \<and>
         table_inv (snd (fst (handleJoinRoom W now r st))) \<and>
         (pk_userId again = pk_userId keyPayload \<and> pk_publicKey again = pk_publicKey keyPayload \<longrightarrow>
            sharedKeysRef (fst (onPublicKey W myPublicKey later
                                 (fst (onPublicKey W myPublicKey now st keyPayload)) again)) =
            sharedKeysRef (fst (onPublicKey W myPublicKey now st keyPayload)))"
proof (intro conjI impI)
  show "table_inv (st\<lparr>sharedKeysRef := []\<rparr>)"
    by (simp add: table_inv_def)
  show "table_inv (fst (onPublicKey W myPublicKey now st keyPayload))"
    using assms
    by (auto simp: onPublicKey_cases table_inv_def Map_set_distinct Map_set_key_set
        split: sum.splits option.splits)
  show "table_inv (fst (onMessage W st messagePayload))"
    using assms
    by (auto simp: onMessage_def table_inv_def split: sum.splits option.splits)
  show "table_inv (fst (handleSendMessage W messageId now r st))"
    using assms
    by (auto simp: handleSendMessage_def table_inv_def Let_def split: sum.splits prod.splits)
  show "table_inv (snd (fst (handleJoinRoom W now r st)))"
    using assms
    by (auto simp: handleJoinRoom_def table_inv_def Let_def split: sum.splits prod.splits)
next
  assume "pk_userId again = pk_userId keyPayload \<and> pk_publicKey again = pk_publicKey keyPayload"
  then show "sharedKeysRef (fst (onPublicKey W myPublicKey later
                                 (fst (onPublicKey W myPublicKey now st keyPayload)) again)) =
            sharedKeysRef (fst (onPublicKey W myPublicKey now st keyPayload))"
    by (auto simp: onPublicKey_cases Map_set_twice split: sum.splits option.splits)
qed


lemma encryptForAll_usable:
  assumes "list_all (\<lambda>e. usable_key (snd e)) ks"
  shows "\<exists>envelopes.
           encryptForAll W content ks acc r =
             (Inr (acc @ envelopes), \<lambda>j. r (j + 12 * length ks)) \<and>
           length envelopes = length ks \<and>
           (\<forall>i<length ks.
              recipientId (envelopes ! i) = fst (ks ! i) \<and>
              fst (encryptMessage W content (snd (ks ! i)) (\<lambda>j. r (j + 12 * i))) =
                Inr (encrypted (envelopes ! i)))"
  using assms
proof (induction ks arbitrary: acc r)
  case Nil
  show ?case by simp
next
  case (Cons e ks)
  obtain rid k where e: "e = (rid, k)" by (cases e)
  have k: "usable_key k" and ks: "list_all (\<lambda>e. usable_key (snd e)) ks"
    using Cons.prems e by simp_all
  define E where "E = \<lparr>ciphertext = Array_from (AES_GCM_seal W (handle k) (map r [0..<12])
                                       (TextEncoder_encode content)),
                        iv = Array_from (map r [0..<12])\<rparr>"
  have enc: "encryptMessage W content k r = (Inr E, \<lambda>i. r (i + 12))"
    unfolding E_def by (rule encryptMessage_usable [OF k])
  obtain rest where
    run: "encryptForAll W content ks (acc @ [\<lparr>recipientId = rid, encrypted = E\<rparr>])
            (\<lambda>i. r (i + 12)) =
          (Inr ((acc @ [\<lparr>recipientId = rid, encrypted = E\<rparr>]) @ rest),
           \<lambda>j. r (j + 12 * length ks + 12))"
    and len: "length rest = length ks"
    and each: "\<forall>i<length ks.
              recipientId (rest ! i) = fst (ks ! i) \<and>
              fst (encryptMessage W content (snd (ks ! i)) (\<lambda>j. r (j + 12 * i + 12))) =
                Inr (encrypted (rest ! i))"
    using Cons.IH [OF ks, of "acc @ [\<lparr>recipientId = rid, encrypted = E\<rparr>]" "\<lambda>i. r (i + 12)"]
    by auto
  let ?envs = "\<lparr>recipientId = rid, encrypted = E\<rparr> # rest"
  have "encryptForAll W content (e # ks) acc r =
          (Inr (acc @ ?envs), \<lambda>j. r (j + 12 * length (e # ks)))"
    using run by (simp add: e enc add.assoc add.commute [of 12])
  moreover have "length ?envs = length (e # ks)"
    using len by simp
  moreover have "recipientId (?envs ! i) = fst ((e # ks) ! i) \<and>
        fst (encryptMessage W content (snd ((e # ks) ! i)) (\<lambda>j. r (j + 12 * i))) =
          Inr (encrypted (?envs ! i))" if "i < length (e # ks)" for i
  proof (cases i)
    case 0
    then show ?thesis by (simp add: e enc)
  next
    case (Suc n)
    then have "n < length ks" using that by simp
    then show ?thesis using each Suc by (simp add: add.assoc add.commute [of 12])
  qed
  ultimately show ?case by blast
qed

lemma Map_set_usable:
  "list_all (\<lambda>e. usable_key (snd e)) m \<Longrightarrow> usable_key v \<Longrightarrow>
   list_all (\<lambda>e. usable_key (snd e)) (Map_set m k v)"
  by (induction m) auto

lemma keys_usable_onPublicKey:
  "keys_usable st \<Longrightarrow> keys_usable (fst (onPublicKey W myPublicKey now st payload))"
  by (auto simp: keys_usable_def onPublicKey_cases Map_set_usable deriveSharedKey_usable
      split: sum.splits option.splits)

text \<open>
  C5. A send that passes the guard (some text besides white space, a channel, no send in
  progress) appends the sender's message to the display with the text as typed and
  trimmed, not with anything decrypted. With an empty key table that is all: nothing is
  handed to the channel. With a table of usable keys, one payload is handed to the
  channel, carrying the message identifier and one envelope per entry, in the order of
  the table: the envelope names the entry's participant and holds the result of
  \<open>encryptMessage\<close> on the text under the entry's key, each with the generator as the
  previous call left it.
\<close>

theorem handleSendMessage_fanout:
  assumes "trim (messageInput st) \<noteq> []" and "channelRef st" and "\<not> isSending st"
    and "keys_usable st"
  shows "let messageContent = trim (messageInput st);
             shown = st\<lparr>messageInput := [],
                        messages := messages st @
                          [\<lparr>m_id = messageId, m_senderId = userId st,
                             m_senderNickname = nicknameRef st, m_content = messageContent,
                             m_timestamp = now, m_isOwn = True\<rparr>],
                        isSending := False\<rparr>
         in (sharedKeysRef st = [] \<longrightarrow> handleSendMessage W messageId now r st = (shown, r)) \<and>
            (sharedKeysRef st \<noteq> [] \<longrightarrow>
               (\<exists>envelopes.
                  handleSendMessage W messageId now r st =
                    (shown\<lparr>sent := sent st @
                       [MessageEvent \<lparr>p_messageId = messageId, p_senderId = userId st,
                          p_senderNickname = nicknameRef st,
                          p_encryptedMessages = Some envelopes, p_encrypted = None,
                          p_timestamp = now\<rparr>]\<rparr>,
                     \<lambda>j. r (j + 12 * length (sharedKeysRef st))) \<and>
                  length envelopes = length (sharedKeysRef st) \<and>
                  (\<forall>i<length (sharedKeysRef st).
                     recipientId (envelopes ! i) = fst (sharedKeysRef st ! i) \<and>
                     fst (encryptMessage W messageContent (snd (sharedKeysRef st ! i))
                            (\<lambda>j. r (j + 12 * i))) = Inr (encrypted (envelopes ! i)))))"
proof -
  obtain envelopes where
    run: "encryptForAll W (trim (messageInput st)) (sharedKeysRef st) [] r =
            (Inr envelopes, \<lambda>j. r (j + 12 * length (sharedKeysRef st)))"
    and len: "length envelopes = length (sharedKeysRef st)"
    and each: "\<forall>i<length (sharedKeysRef st).
              recipientId (envelopes ! i) = fst (sharedKeysRef st ! i) \<and>
              fst (encryptMessage W (trim (messageInput st)) (snd (sharedKeysRef st ! i))
                     (\<lambda>j. r (j + 12 * i))) = Inr (encrypted (envelopes ! i))"
    using encryptForAll_usable [of "sharedKeysRef st" W "trim (messageInput st)" "[]" r]
      assms(4) unfolding keys_usable_def by auto
  show ?thesis
    unfolding Let_def
  proof (intro conjI impI)
    assume "sharedKeysRef st = []"
    then show "handleSendMessage W messageId now r st =
      (st\<lparr>messageInput := [],
          messages := messages st @
            [\<lparr>m_id = messageId, m_senderId = userId st, m_senderNickname = nicknameRef st,
               m_content = trim (messageInput st), m_timestamp = now, m_isOwn = True\<rparr>],
          isSending := False\<rparr>, r)"
      using assms(1-3) by (simp add: handleSendMessage_def Let_def)
  next
    assume "sharedKeysRef st \<noteq> []"
    then have "handleSendMessage W messageId now r st =
      (st\<lparr>messageInput := [],
          messages := messages st @
            [\<lparr>m_id = messageId, m_senderId = userId st, m_senderNickname = nicknameRef st,
               m_content = trim (messageInput st), m_timestamp = now, m_isOwn = True\<rparr>],
          isSending := False,
          sent := sent st @
            [MessageEvent \<lparr>p_messageId = messageId, p_senderId = userId st,
               p_senderNickname = nicknameRef st, p_encryptedMessages = Some envelopes,
               p_encrypted = None, p_timestamp = now\<rparr>]\<rparr>,
       \<lambda>j. r (j + 12 * length (sharedKeysRef st)))"
      using assms(1-3) run by (simp add: handleSendMessage_def Let_def)
    then show "\<exists>envelopes.
       handleSendMessage W messageId now r st =
         (st\<lparr>messageInput := [],
             messages := messages st @
               [\<lparr>m_id = messageId, m_senderId = userId st, m_senderNickname = nicknameRef st,
                  m_content = trim (messageInput st), m_timestamp = now, m_isOwn = True\<rparr>],
             isSending := False,
             sent := sent st @
               [MessageEvent \<lparr>p_messageId = messageId, p_senderId = userId st,
                  p_senderNickname = nicknameRef st, p_encryptedMessages = Some envelopes,
                  p_encrypted = None, p_timestamp = now\<rparr>]\<rparr>,
          \<lambda>j. r (j + 12 * length (sharedKeysRef st))) \<and>
       length envelopes = length (sharedKeysRef st) \<and>
       (\<forall>i<length (sharedKeysRef st).
          recipientId (envelopes ! i) = fst (sharedKeysRef st ! i) \<and>
          fst (encryptMessage W (trim (messageInput st)) (snd (sharedKeysRef st ! i))
                 (\<lambda>j. r (j + 12 * i))) = Inr (encrypted (envelopes ! i)))"
      using len each by blast
  qed
qed


section \<open>The model at work: Alice and Bob\<close>

lemma js_distinct:
  "js ''bob'' \<noteq> js ''alice''" "js ''carol'' \<noteq> js ''alice''" "js ''carol'' \<noteq> js ''bob''"
  "js ''alice'' \<noteq> js ''bob''" "js ''alice'' \<noteq> js ''carol''" "js ''bob'' \<noteq> js ''carol''"
  by (simp_all add: js_def)

lemma alice_room_sel:
  "userId alice_room = js ''alice''" "nickname alice_room = js ''Alice''" "sent alice_room = []"
  by (simp_all add: alice_room_def)

lemma trim_Alice: "trim (js ''Alice'') = js ''Alice''"
  by (simp add: trim_def js_def is_white_space_def)

lemma trim_hi: "trim (js '' hi '') = js ''hi''"
  by (simp add: trim_def js_def is_white_space_def)

lemma alice_public_exported: "exportPublicKey (publicKey alice_keys) = Inr alice_public"
  by (simp add: exportPublicKey_def subtle_exportKey_raw_def alice_keys_def alice_public_def)

lemma alice_join:
  "handleJoinRoom test_platform 1000 alice_rng alice_room =
     ((Some alice_public, alice_joined), \<lambda>i. alice_rng (i + 32))"
proof -
  have n: "nickname alice_room = js ''Alice''" by (simp add: alice_room_def)
  have l: "length (js ''Alice'') = 5" by (simp add: js_def)
  show ?thesis
    unfolding handleJoinRoom_def n trim_Alice
    using l
    by (auto simp: alice_generated alice_public_exported)
      (simp add: alice_room_def alice_joined_def alice_announcement_def)
qed

lemma bob_announced_key:
  "importPublicKey (pk_publicKey bob_announcement) = Inr ((publicKey bob_keys)\<lparr>extractable := False\<rparr>)"
  by (simp add: bob_announcement_def bob_imported)

lemma alice_derives:
  "deriveSharedKey test_platform (privateKey alice_keys) ((publicKey bob_keys)\<lparr>extractable := False\<rparr>)
     = Inr alice_bob_key"
  by code_simp

lemma alice_joined_sel:
  "userId alice_joined = js ''alice''" "nicknameRef alice_joined = js ''Alice''"
  "keyPairRef alice_joined = Some alice_keys" "sharedKeysRef alice_joined = []"
  "sent alice_joined = [PublicKeyEvent (alice_announcement 1000)]"
  "channelRef alice_joined" "\<not> isSending alice_joined" "messages alice_joined = []"
  by (simp_all add: alice_joined_def alice_room_def)

lemma alice_with_bob_sel:
  "userId alice_with_bob = js ''alice''" "nicknameRef alice_with_bob = js ''Alice''"
  "keyPairRef alice_with_bob = Some alice_keys"
  "sharedKeysRef alice_with_bob = [(js ''bob'', alice_bob_key)]"
  "sent alice_with_bob =
     [PublicKeyEvent (alice_announcement 1000), PublicKeyEvent (alice_announcement 2000)]"
  "channelRef alice_with_bob" "\<not> isSending alice_with_bob" "messages alice_with_bob = []"
  by (simp_all add: alice_with_bob_def alice_joined_def alice_room_def)

lemma alice_meets_bob:
  "onPublicKey test_platform alice_public 2000 alice_joined bob_announcement =
     (alice_with_bob, ChannelEstablished True)"
  by (simp add: onPublicKey_cases bob_announced_key alice_derives alice_joined_sel Map_get_def)
    (simp add: alice_with_bob_def alice_joined_def alice_room_def alice_announcement_def
      bob_announcement_def js_distinct)

lemma unreadable_fails:
  "decryptMessage test_platform unreadable alice_bob_key = Inl CannotDecryptMessage"
  by (simp add: decryptMessage_def subtle_decrypt_def unreadable_def Uint8Array_def
      alice_bob_key_def)

lemma hi_sealed_opens: "decryptMessage test_platform hi_sealed alice_bob_key = Inr (js ''hi'')"
proof -
  have "TextDecoder_decode (TextEncoder_encode (js ''hi'')) = js ''hi''"
    by (rule TextDecoder_TextEncoder) (simp_all add: js_hi)
  then show ?thesis
    using decryptMessage_sealed [OF test_aead_correct alice_bob_key_usable,
        of "map bob_rng [0..<12]" "TextEncoder_encode (js ''hi'')"]
    by (simp add: hi_sealed_def test_platform_def)
qed


lemma message_from_sel:
  "p_senderId (message_from s e l) = s" "p_encryptedMessages (message_from s e l) = e"
  "p_encrypted (message_from s e l) = l" "p_messageId (message_from s e l) = js ''m1''"
  "p_senderNickname (message_from s e l) = s" "p_timestamp (message_from s e l) = 2500"
  by (simp_all add: message_from_def)

theorem onMessage_drops_witness:
  "onMessage test_platform alice_with_bob (message_from (js ''alice'') None None) =
     (alice_with_bob, OwnMessageSkipped) \<and>
   onMessage test_platform alice_with_bob
     (message_from (js ''bob'') (Some [\<lparr>recipientId = js ''carol'', encrypted = hi_sealed\<rparr>]) None) =
     (alice_with_bob, NoCiphertextForMe) \<and>
   onMessage test_platform alice_with_bob
     (message_from (js ''carol'') (Some [\<lparr>recipientId = js ''alice'', encrypted = hi_sealed\<rparr>]) None) =
     (alice_with_bob, NoKeyForSender) \<and>
   onMessage test_platform alice_with_bob
     (message_from (js ''bob'') (Some [\<lparr>recipientId = js ''alice'', encrypted = unreadable\<rparr>]) None) =
     (alice_with_bob, DecryptionFailed CannotDecryptMessage)"
proof (intro conjI)
  show "onMessage test_platform alice_with_bob (message_from (js ''alice'') None None) =
     (alice_with_bob, OwnMessageSkipped)"
    using onMessage_drops [where payload = "message_from (js ''alice'') None None"
        and st = alice_with_bob and W = test_platform]
    by (simp add: message_from_sel alice_with_bob_sel)
  show "onMessage test_platform alice_with_bob
     (message_from (js ''bob'') (Some [\<lparr>recipientId = js ''carol'', encrypted = hi_sealed\<rparr>]) None) =
     (alice_with_bob, NoCiphertextForMe)"
    using onMessage_drops [where payload = "message_from (js ''bob'')
          (Some [\<lparr>recipientId = js ''carol'', encrypted = hi_sealed\<rparr>]) None"
        and st = alice_with_bob and W = test_platform
        and envelopes = "[\<lparr>recipientId = js ''carol'', encrypted = hi_sealed\<rparr>]"]
    by (simp add: message_from_sel alice_with_bob_sel js_distinct)
  show "onMessage test_platform alice_with_bob
     (message_from (js ''carol'') (Some [\<lparr>recipientId = js ''alice'', encrypted = hi_sealed\<rparr>]) None) =
     (alice_with_bob, NoKeyForSender)"
    using onMessage_drops [where payload = "message_from (js ''carol'')
          (Some [\<lparr>recipientId = js ''alice'', encrypted = hi_sealed\<rparr>]) None"
        and st = alice_with_bob and W = test_platform
        and envelopes = "[\<lparr>recipientId = js ''alice'', encrypted = hi_sealed\<rparr>]"]
    by (simp add: message_from_sel alice_with_bob_sel js_distinct Map_get_def)
  show "onMessage test_platform alice_with_bob
     (message_from (js ''bob'') (Some [\<lparr>recipientId = js ''alice'', encrypted = unreadable\<rparr>]) None) =
     (alice_with_bob, DecryptionFailed CannotDecryptMessage)"
    using onMessage_drops [where payload = "message_from (js ''bob'')
          (Some [\<lparr>recipientId = js ''alice'', encrypted = unreadable\<rparr>]) None"
        and st = alice_with_bob and W = test_platform
        and envelopes = "[\<lparr>recipientId = js ''alice'', encrypted = unreadable\<rparr>]"
        and mine = "\<lparr>recipientId = js ''alice'', encrypted = unreadable\<rparr>"
        and sharedKey = alice_bob_key and e = CannotDecryptMessage]
    by (simp add: message_from_sel alice_with_bob_sel js_distinct Map_get_def unreadable_fails)
qed

theorem onMessage_legacy_witness:
  "onMessage test_platform alice_with_bob (message_from (js ''bob'') None (Some hi_sealed)) =
     (alice_with_bob\<lparr>messages :=
        [\<lparr>m_id = js ''m1'', m_senderId = js ''bob'', m_senderNickname = js ''bob'',
           m_content = js ''hi'', m_timestamp = 2500, m_isOwn = False\<rparr>]\<rparr>, DeliveredLegacy) \<and>
   onMessage test_platform alice_with_bob (message_from (js ''bob'') None (Some unreadable)) =
     (alice_with_bob, DecryptionFailed CannotDecryptMessage)"
  using onMessage_legacy [where payload = "message_from (js ''bob'') None (Some hi_sealed)"
      and st = alice_with_bob and W = test_platform and legacy = hi_sealed
      and sharedKey = alice_bob_key]
    onMessage_legacy [where payload = "message_from (js ''bob'') None (Some unreadable)"
      and st = alice_with_bob and W = test_platform and legacy = unreadable
      and sharedKey = alice_bob_key]
  by (simp add: message_from_sel alice_with_bob_sel js_distinct Map_get_def unreadable_fails
      hi_sealed_opens)

theorem onPublicKey_reply_once_witness:
  "sent alice_joined = [PublicKeyEvent (alice_announcement 1000)] \<and>
   sent (fst (onPublicKey test_platform alice_public 2000 alice_joined bob_announcement)) =
     [PublicKeyEvent (alice_announcement 1000), PublicKeyEvent (alice_announcement 2000)] \<and>
   sent (fst (onPublicKey test_platform alice_public 3000 alice_with_bob bob_announcement)) =
     [PublicKeyEvent (alice_announcement 1000), PublicKeyEvent (alice_announcement 2000)]"
proof -
  have b: "pk_userId bob_announcement = js ''bob''"
    by (simp add: bob_announcement_def)
  show ?thesis
    using onPublicKey_reply_once [OF alice_join _ bob_announced_key _ alice_derives,
        of alice_joined 2000]
      onPublicKey_reply_once [OF alice_join _ bob_announced_key _ alice_derives,
        of alice_with_bob 3000]
    by (simp add: alice_joined_sel alice_with_bob_sel alice_room_sel trim_Alice b js_distinct
        Map_get_def alice_announcement_def)
qed

lemma alice_with_bob_inv: "table_inv alice_with_bob"
  by (simp add: table_inv_def alice_with_bob_sel js_distinct)

theorem table_inv_preserved_witness:
  "table_inv (fst (onPublicKey test_platform alice_public 3000 alice_with_bob bob_announcement)) \<and>
   table_inv (fst (onMessage test_platform alice_with_bob
                     (message_from (js ''bob'') None (Some hi_sealed)))) \<and>
   table_inv (fst (handleSendMessage test_platform (js ''m2'') 3000 alice_rng alice_with_bob)) \<and>
   sharedKeysRef (fst (onPublicKey test_platform alice_public 4000
       (fst (onPublicKey test_platform alice_public 3000 alice_with_bob bob_announcement))
       bob_announcement)) =
     sharedKeysRef (fst (onPublicKey test_platform alice_public 3000 alice_with_bob
       bob_announcement))"
  using table_inv_preserved [OF alice_with_bob_inv, where W = test_platform
      and myPublicKey = alice_public and now = 3000 and later = 4000
      and keyPayload = bob_announcement and again = bob_announcement
      and messagePayload = "message_from (js ''bob'') None (Some hi_sealed)"
      and messageId = "js ''m2''" and r = alice_rng]
  by simp

lemma alice_with_bob_usable: "keys_usable alice_with_bob"
  by (simp add: keys_usable_def alice_with_bob_sel alice_bob_key_usable)

lemma alice_joined_usable: "keys_usable alice_joined"
  by (simp add: keys_usable_def alice_joined_sel)

theorem handleSendMessage_fanout_witness:
  "handleSendMessage test_platform (js ''m2'') 3000 alice_rng
     (alice_joined\<lparr>messageInput := js '' hi ''\<rparr>) =
     (alice_joined\<lparr>messages :=
        [\<lparr>m_id = js ''m2'', m_senderId = js ''alice'', m_senderNickname = js ''Alice'',
           m_content = js ''hi'', m_timestamp = 3000, m_isOwn = True\<rparr>]\<rparr>, alice_rng) \<and>
   (\<exists>envelopes.
      fst (handleSendMessage test_platform (js ''m2'') 3000 alice_rng
             (alice_with_bob\<lparr>messageInput := js '' hi ''\<rparr>)) =
        alice_with_bob\<lparr>messages :=
          [\<lparr>m_id = js ''m2'', m_senderId = js ''alice'', m_senderNickname = js ''Alice'',
             m_content = js ''hi'', m_timestamp = 3000, m_isOwn = True\<rparr>],
          sent := sent alice_with_bob @
            [MessageEvent \<lparr>p_messageId = js ''m2'', p_senderId = js ''alice'',
               p_senderNickname = js ''Alice'', p_encryptedMessages = Some envelopes,
               p_encrypted = None, p_timestamp = 3000\<rparr>]\<rparr> \<and>
      length envelopes = 1 \<and> recipientId (envelopes ! 0) = js ''bob'')"
proof -
  have ne: "js ''hi'' \<noteq> []" by (simp add: js_def)
  have a: "alice_joined\<lparr>messageInput := []\<rparr> = alice_joined"
    "alice_with_bob\<lparr>messageInput := []\<rparr> = alice_with_bob"
    "alice_joined\<lparr>isSending := False\<rparr> = alice_joined"
    "alice_with_bob\<lparr>isSending := False\<rparr> = alice_with_bob"
    by (simp_all add: alice_with_bob_def alice_joined_def alice_room_def)
  have u1: "keys_usable (alice_joined\<lparr>messageInput := js '' hi ''\<rparr>)"
    using alice_joined_usable by (simp add: keys_usable_def)
  have u2: "keys_usable (alice_with_bob\<lparr>messageInput := js '' hi ''\<rparr>)"
    using alice_with_bob_usable by (simp add: keys_usable_def)
  have "handleSendMessage test_platform (js ''m2'') 3000 alice_rng
     (alice_joined\<lparr>messageInput := js '' hi ''\<rparr>) =
     (alice_joined\<lparr>messages :=
        [\<lparr>m_id = js ''m2'', m_senderId = js ''alice'', m_senderNickname = js ''Alice'',
           m_content = js ''hi'', m_timestamp = 3000, m_isOwn = True\<rparr>]\<rparr>, alice_rng)"
    using handleSendMessage_fanout [OF _ _ _ u1, where W = test_platform
        and messageId = "js ''m2''" and now = 3000 and r = alice_rng]
    by (simp add: Let_def trim_hi ne alice_joined_sel)
      (simp add: alice_joined_def alice_room_def)
  moreover have "\<exists>envelopes.
      fst (handleSendMessage test_platform (js ''m2'') 3000 alice_rng
             (alice_with_bob\<lparr>messageInput := js '' hi ''\<rparr>)) =
        alice_with_bob\<lparr>messages :=
          [\<lparr>m_id = js ''m2'', m_senderId = js ''alice'', m_senderNickname = js ''Alice'',
             m_content = js ''hi'', m_timestamp = 3000, m_isOwn = True\<rparr>],
          sent := sent alice_with_bob @
            [MessageEvent \<lparr>p_messageId = js ''m2'', p_senderId = js ''alice'',
               p_senderNickname = js ''Alice'', p_encryptedMessages = Some envelopes,
               p_encrypted = None, p_timestamp = 3000\<rparr>]\<rparr> \<and>
      length envelopes = 1 \<and> recipientId (envelopes ! 0) = js ''bob''"
    using handleSendMessage_fanout [OF _ _ _ u2, where W = test_platform
        and messageId = "js ''m2''" and now = 3000 and r = alice_rng]
    apply (simp add: Let_def trim_hi ne alice_with_bob_sel)
    apply (erule exE)
    subgoal for envelopes
      by (rule exI [of _ envelopes]) (simp add: alice_with_bob_def alice_joined_def alice_room_def)
    done
  ultimately show ?thesis by blast
qed

end
